theory Spec2Isabelle
  imports Complex_Main
begin

section \<open>Number model\<close>

text \<open>
  The engine computes on JavaScript numbers. Two models of it are given.

  The first takes the numbers as real numbers with exact arithmetic: rounding, overflow
  and the special values NaN and Infinity are outside it. It agrees with the formulas of
  the source wherever the source divides by a non-zero number, takes the square root of a
  non-negative number and raises a non-negative base to a fractional power. It carries
  the statements about which function is applied to which arguments, and about the
  formulas themselves.

  The second (sections \<open>Double-precision arithmetic\<close> and
  \<open>The engine in double arithmetic\<close>) takes them as IEEE-754 doubles, every operation
  rounded; it carries the statements about the values the program returns.

  In the first model \<^verbatim>\<open>Math.pow(x, y)\<close> is 1 for \<open>y = 0\<close>, repeated multiplication
  (or its reciprocal) for an integral \<open>y\<close>, and the real power otherwise.
  \<^verbatim>\<open>Math.sqrt\<close> is \<open>sqrt\<close>, \<^verbatim>\<open>Math.PI\<close> is \<open>pi\<close>,
  \<^verbatim>\<open>Math.min\<close> is \<open>min\<close>.
\<close>

definition Math_pow :: "real \<Rightarrow> real \<Rightarrow> real" where
  "Math_pow x y =
     (if y = 0 then 1
      else if y \<in> \<int> then (if 0 \<le> y then x ^ nat \<lfloor>y\<rfloor> else inverse (x ^ nat \<lfloor>- y\<rfloor>))
      else x powr y)"

section \<open>Data model (types.ts)\<close>

record FracInputs =
  E :: real
  nu :: real
  sigma_min :: real
  CL :: real
  mu :: real
  q :: real
  H :: real
  K_IC :: real
  time :: real
  p_limit :: real
  depth :: real

datatype ModelType = PKN | KGD | RADIAL

datatype Regime = Viscosity | Toughness | Leakoff_Dominated

record TimeStep =
  ts_time :: real
  ts_length :: real
  ts_width :: real
  ts_pressure :: real

record ProfilePoint =
  pp_position :: real
  pp_width :: real

record ModelResult =
  mtype :: ModelType
  length_m :: real
  width_avg :: real
  width_max :: real
  p_net :: real
  p_well :: real
  efficiency :: real
  volume_injected :: real
  volume_leakoff :: real
  regime :: Regime
  warnings :: "string list"
  timeSeries :: "TimeStep list"
  profile :: "ProfilePoint list"

record SensitivityData =
  parameter :: string
  factor :: real
  L_change :: real
  w_change :: real
  p_change :: real

text \<open>The object \<^verbatim>\<open>{ L, p, w }\<close> that a solver closure returns.\<close>

record Sol =
  sol_L :: real
  sol_p :: real
  sol_w :: real

text \<open>The keys of \<^verbatim>\<open>FracInputs\<close>, for the indexed reads and writes of the
  sensitivity analyzer.\<close>

datatype FracKey =
  Key_E | Key_nu | Key_sigma_min | Key_CL | Key_mu | Key_q | Key_H | Key_K_IC
  | Key_time | Key_p_limit | Key_depth

fun key_name :: "FracKey \<Rightarrow> string" where
  "key_name Key_E = ''E''"
| "key_name Key_nu = ''nu''"
| "key_name Key_sigma_min = ''sigma_min''"
| "key_name Key_CL = ''CL''"
| "key_name Key_mu = ''mu''"
| "key_name Key_q = ''q''"
| "key_name Key_H = ''H''"
| "key_name Key_K_IC = ''K_IC''"
| "key_name Key_time = ''time''"
| "key_name Key_p_limit = ''p_limit''"
| "key_name Key_depth = ''depth''"

fun get_key :: "FracInputs \<Rightarrow> FracKey \<Rightarrow> real" where
  "get_key inputs Key_E = E inputs"
| "get_key inputs Key_nu = nu inputs"
| "get_key inputs Key_sigma_min = sigma_min inputs"
| "get_key inputs Key_CL = CL inputs"
| "get_key inputs Key_mu = mu inputs"
| "get_key inputs Key_q = q inputs"
| "get_key inputs Key_H = H inputs"
| "get_key inputs Key_K_IC = K_IC inputs"
| "get_key inputs Key_time = time inputs"
| "get_key inputs Key_p_limit = p_limit inputs"
| "get_key inputs Key_depth = depth inputs"

fun set_key :: "FracInputs \<Rightarrow> FracKey \<Rightarrow> real \<Rightarrow> FracInputs" where
  "set_key inputs Key_E v = inputs\<lparr>E := v\<rparr>"
| "set_key inputs Key_nu v = inputs\<lparr>nu := v\<rparr>"
| "set_key inputs Key_sigma_min v = inputs\<lparr>sigma_min := v\<rparr>"
| "set_key inputs Key_CL v = inputs\<lparr>CL := v\<rparr>"
| "set_key inputs Key_mu v = inputs\<lparr>mu := v\<rparr>"
| "set_key inputs Key_q v = inputs\<lparr>q := v\<rparr>"
| "set_key inputs Key_H v = inputs\<lparr>H := v\<rparr>"
| "set_key inputs Key_K_IC v = inputs\<lparr>K_IC := v\<rparr>"
| "set_key inputs Key_time v = inputs\<lparr>time := v\<rparr>"
| "set_key inputs Key_p_limit v = inputs\<lparr>p_limit := v\<rparr>"
| "set_key inputs Key_depth v = inputs\<lparr>depth := v\<rparr>"

section \<open>The propagation engine (services/fractureService.ts)\<close>

subsection \<open>Helpers\<close>

definition getEPrime :: "real \<Rightarrow> real \<Rightarrow> real" where
  "getEPrime Ev nuv = Ev / (1 - Math_pow nuv 2)"

definition checkRegime ::
  "ModelType \<Rightarrow> real \<Rightarrow> real \<Rightarrow> real \<Rightarrow> real \<Rightarrow> real \<Rightarrow> real \<Rightarrow> Regime" where
  "checkRegime ty E_prime muv qv K_ICv R_or_L Hv =
     (let toughnessScore = K_ICv / (muv * qv * 1000000)
      in if toughnessScore > 100 then Toughness else Viscosity)"

text \<open>
  \<^verbatim>\<open>generateHistory\<close>: the loop \<^verbatim>\<open>for (let i = 1; i <= steps; i++)\<close> pushes one
  record per pass; the loop variable and the array are the arguments of the recursion.
\<close>

function generateHistory_loop ::
  "real \<Rightarrow> (real \<Rightarrow> Sol) \<Rightarrow> nat \<Rightarrow> nat \<Rightarrow> TimeStep list \<Rightarrow> TimeStep list" where
  "generateHistory_loop totalTime calcAtTime steps i history =
     (if i \<le> steps then
        (let t = (totalTime / real steps) * real i;
             res = calcAtTime t
         in generateHistory_loop totalTime calcAtTime steps (Suc i)
              (history @ [\<lparr>ts_time = t, ts_length = sol_L res,
                           ts_width = sol_w res, ts_pressure = sol_p res\<rparr>]))
      else history)"
  by pat_completeness auto
termination
  by (relation "measure (\<lambda>(totalTime, calcAtTime, steps, i, history). Suc steps - i)") auto

declare generateHistory_loop.simps [simp del]

definition generateHistory :: "real \<Rightarrow> (real \<Rightarrow> Sol) \<Rightarrow> TimeStep list" where
  "generateHistory totalTime calcAtTime = generateHistory_loop totalTime calcAtTime 50 1 []"

text \<open>\<^verbatim>\<open>generateProfile\<close>: the loop \<^verbatim>\<open>for (let i = 0; i <= points; i++)\<close>.\<close>

function generateProfile_loop ::
  "real \<Rightarrow> real \<Rightarrow> real \<Rightarrow> nat \<Rightarrow> nat \<Rightarrow> ProfilePoint list \<Rightarrow> ProfilePoint list" where
  "generateProfile_loop Lv w_max shapeExponent points i prof =
     (if i \<le> points then
        (let x = (Lv / real points) * real i;
             x_norm = x / Lv;
             wv = w_max * Math_pow (1 - x_norm) shapeExponent
         in generateProfile_loop Lv w_max shapeExponent points (Suc i)
              (prof @ [\<lparr>pp_position = x, pp_width = wv\<rparr>]))
      else prof)"
  by pat_completeness auto
termination
  by (relation "measure (\<lambda>(Lv, w_max, shapeExponent, points, i, prof). Suc points - i)") auto

declare generateProfile_loop.simps [simp del]

definition generateProfile :: "real \<Rightarrow> real \<Rightarrow> real \<Rightarrow> ProfilePoint list" where
  "generateProfile Lv w_max shapeExponent = generateProfile_loop Lv w_max shapeExponent 50 0 []"

subsection \<open>PKN model\<close>

text \<open>
  The closure \<^verbatim>\<open>solvePKN\<close> captures the destructured inputs and \<^verbatim>\<open>Ep\<close>; they are
  its first two arguments here. Its two local asymptotes are definitions of their own so
  that statements can name them.
\<close>

definition PKN_L_no_leakoff :: "FracInputs \<Rightarrow> real \<Rightarrow> real \<Rightarrow> real" where
  "PKN_L_no_leakoff inputs Ep t =
     0.68 * Math_pow ((Math_pow (q inputs) 3 * Ep) / (mu inputs * Math_pow (H inputs) 4)) 0.2
       * Math_pow t 0.8"

definition PKN_L_high_leakoff :: "FracInputs \<Rightarrow> real \<Rightarrow> real" where
  "PKN_L_high_leakoff inputs t = (q inputs * sqrt t) / (2 * pi * CL inputs * H inputs)"

definition solvePKN :: "FracInputs \<Rightarrow> real \<Rightarrow> real \<Rightarrow> Sol" where
  "solvePKN inputs Ep t =
     (let L_no_leakoff = PKN_L_no_leakoff inputs Ep t;
          L_high_leakoff = PKN_L_high_leakoff inputs t;
          Lv = 1 / (1 / L_no_leakoff + 1 / L_high_leakoff);
          p_netv = 2.5 * Math_pow ((mu inputs * q inputs * Lv) / Math_pow (H inputs) 4) 0.25
                     * Math_pow Ep 0.75;
          w_maxv = (3 * p_netv * H inputs) / Ep
      in \<lparr>sol_L = Lv, sol_p = p_netv, sol_w = w_maxv\<rparr>)"

definition calculatePKN :: "FracInputs \<Rightarrow> ModelResult" where
  "calculatePKN inputs =
     (let Ep = getEPrime (E inputs) (nu inputs);
          final = solvePKN inputs Ep (time inputs);
          w_avg = (pi / 4) * sol_w final * 0.8;
          Vi = q inputs * time inputs;
          V_frac = sol_L final * H inputs * w_avg * 2
      in \<lparr>mtype = PKN,
          length_m = sol_L final,
          width_avg = w_avg,
          width_max = sol_w final,
          p_net = sol_p final,
          p_well = sigma_min inputs + sol_p final,
          efficiency = min 1 (V_frac / Vi),
          volume_injected = Vi,
          volume_leakoff = Vi - V_frac,
          regime = checkRegime PKN Ep (mu inputs) (q inputs) (K_IC inputs) (sol_L final) (H inputs),
          warnings = (if sol_L final < 2 * H inputs
                      then [''L < 2H: PKN assumption violated (Short fracture).''] else []),
          timeSeries = generateHistory (time inputs) (solvePKN inputs Ep),
          profile = generateProfile (sol_L final) (sol_w final) 0.25\<rparr>)"

subsection \<open>KGD model\<close>

definition KGD_L_no_leakoff :: "FracInputs \<Rightarrow> real \<Rightarrow> real \<Rightarrow> real" where
  "KGD_L_no_leakoff inputs Ep t =
     0.48 * Math_pow ((Ep * Math_pow (q inputs) 3) / (mu inputs * Math_pow (H inputs) 3)) (1/6)
       * Math_pow t (2/3)"

definition KGD_L_high_leakoff :: "FracInputs \<Rightarrow> real \<Rightarrow> real" where
  "KGD_L_high_leakoff inputs t = (q inputs * sqrt t) / (2 * pi * CL inputs * H inputs)"

definition solveKGD :: "FracInputs \<Rightarrow> real \<Rightarrow> real \<Rightarrow> Sol" where
  "solveKGD inputs Ep t =
     (let L_no_leakoff = KGD_L_no_leakoff inputs Ep t;
          L_high_leakoff = KGD_L_high_leakoff inputs t;
          Lv = 1 / (1 / L_no_leakoff + 1 / L_high_leakoff);
          w_maxv = 1.32 * Math_pow ((mu inputs * q inputs * Math_pow Lv 2) / (Ep * H inputs)) 0.25;
          p_netv = (Ep * w_maxv) / (4 * Lv)
      in \<lparr>sol_L = Lv, sol_p = p_netv, sol_w = w_maxv\<rparr>)"

definition calculateKGD :: "FracInputs \<Rightarrow> ModelResult" where
  "calculateKGD inputs =
     (let Ep = getEPrime (E inputs) (nu inputs);
          final = solveKGD inputs Ep (time inputs);
          w_avg = (pi / 4) * sol_w final;
          Vi = q inputs * time inputs;
          V_frac = 2 * sol_L final * H inputs * w_avg
      in \<lparr>mtype = KGD,
          length_m = sol_L final,
          width_avg = w_avg,
          width_max = sol_w final,
          p_net = sol_p final,
          p_well = sigma_min inputs + sol_p final,
          efficiency = min 1 (V_frac / Vi),
          volume_injected = Vi,
          volume_leakoff = Vi - V_frac,
          regime = checkRegime KGD Ep (mu inputs) (q inputs) (K_IC inputs) (sol_L final) (H inputs),
          warnings = (if sol_L final > H inputs
                      then [''L > H: KGD assumption violated (Long fracture).''] else []),
          timeSeries = generateHistory (time inputs) (solveKGD inputs Ep),
          profile = generateProfile (sol_L final) (sol_w final) 0.5\<rparr>)"

subsection \<open>Radial model\<close>

definition Radial_R_no_leakoff :: "FracInputs \<Rightarrow> real \<Rightarrow> real \<Rightarrow> real" where
  "Radial_R_no_leakoff inputs Ep t =
     0.52 * Math_pow ((Ep * Math_pow (q inputs) 3) / mu inputs) (1/9) * Math_pow t (4/9)"

definition Radial_R_high_leakoff :: "FracInputs \<Rightarrow> real \<Rightarrow> real" where
  "Radial_R_high_leakoff inputs t = sqrt (q inputs * sqrt t / (pi * pi * CL inputs))"

definition solveRadial :: "FracInputs \<Rightarrow> real \<Rightarrow> real \<Rightarrow> Sol" where
  "solveRadial inputs Ep t =
     (let R_no_leakoff = Radial_R_no_leakoff inputs Ep t;
          R_high_leakoff = Radial_R_high_leakoff inputs t;
          R = 1 / (1 / R_no_leakoff + 1 / R_high_leakoff);
          p_netv = 1.25 * Math_pow ((mu inputs * q inputs * Math_pow Ep 2) / Math_pow R 3) 0.25;
          w_maxv = (8 * p_netv * R) / (pi * Ep)
      in \<lparr>sol_L = R, sol_p = p_netv, sol_w = w_maxv\<rparr>)"

definition calculateRadial :: "FracInputs \<Rightarrow> ModelResult" where
  "calculateRadial inputs =
     (let Ep = getEPrime (E inputs) (nu inputs);
          final = solveRadial inputs Ep (time inputs);
          w_avg = 2/3 * sol_w final;
          Vi = q inputs * time inputs;
          V_frac = (pi * sol_L final * sol_L final) * w_avg
      in \<lparr>mtype = RADIAL,
          length_m = sol_L final,
          width_avg = w_avg,
          width_max = sol_w final,
          p_net = sol_p final,
          p_well = sigma_min inputs + sol_p final,
          efficiency = min 1 (V_frac / Vi),
          volume_injected = Vi,
          volume_leakoff = Vi - V_frac,
          regime = checkRegime RADIAL Ep (mu inputs) (q inputs) (K_IC inputs) (sol_L final) 0,
          warnings = [],
          timeSeries = generateHistory (time inputs) (solveRadial inputs Ep),
          profile = generateProfile (sol_L final) (sol_w final) 0.5\<rparr>)"

subsection \<open>Sensitivity analyzer\<close>

text \<open>
  The two nested \<^verbatim>\<open>forEach\<close> calls push onto one array; each is a fold that threads
  the array.
\<close>

definition runSensitivity :: "FracInputs \<Rightarrow> ModelResult \<Rightarrow> SensitivityData list" where
  "runSensitivity inputs baseResult =
     (let params = [Key_mu, Key_q, Key_sigma_min, Key_CL];
          calcFn = (if mtype baseResult = PKN then calculatePKN
                    else if mtype baseResult = KGD then calculateKGD else calculateRadial)
      in fold (\<lambda>param results.
           fold (\<lambda>fac results.
             (let newInputs = set_key inputs param (get_key inputs param * fac);
                  res = calcFn newInputs
              in results @
                 [\<lparr>parameter = key_name param,
                   factor = fac,
                   L_change = ((length_m res - length_m baseResult) / length_m baseResult) * 100,
                   w_change = ((width_avg res - width_avg baseResult) / width_avg baseResult) * 100,
                   p_change = ((p_net res - p_net baseResult) / p_net baseResult) * 100\<rparr>]))
             [0.5, 2.0] results)
           params [])"

subsection \<open>Entry point (App.tsx)\<close>

text \<open>
  The dispatch of the \<^verbatim>\<open>useEffect\<close> hook: a \<^verbatim>\<open>switch\<close> on the selected model whose
  default branch is PKN. No branch of the dispatch or of a solver throws or returns a
  failure, and no check of the inputs precedes the call; the result type has a failure
  side only so that statements about failures can be written.
\<close>

datatype ComputeError = InvalidInput | DegenerateResult | UnsupportedModel

definition compute :: "ModelType \<Rightarrow> FracInputs \<Rightarrow> ComputeError + ModelResult" where
  "compute selectedModel siInputs =
     (case selectedModel of
        KGD \<Rightarrow> Inr (calculateKGD siInputs)
      | RADIAL \<Rightarrow> Inr (calculateRadial siInputs)
      | PKN \<Rightarrow> Inr (calculatePKN siInputs))"

text \<open>The default inputs of the application (constants.ts).\<close>

definition INITIAL_INPUTS :: FracInputs where
  "INITIAL_INPUTS =
     \<lparr>E = 30000000000, nu = 0.25, sigma_min = 40000000, CL = 0.00005, mu = 0.1, q = 0.05,
      H = 30, K_IC = 1000000, time = 1800, p_limit = 70000000, depth = 2500\<rparr>"

section \<open>Input domains\<close>

text \<open>
  The valid inputs of the specification's data model: positive modulus, viscosity, rate,
  height, leakoff coefficient and time, and Poisson's ratio strictly between -1 and 0.5.
\<close>

definition valid_inputs :: "FracInputs \<Rightarrow> bool" where
  "valid_inputs inputs =
     (0 < E inputs \<and> - 1 < nu inputs \<and> nu inputs < 0.5 \<and> 0 < mu inputs \<and> 0 < q inputs
      \<and> 0 < H inputs \<and> 0 < CL inputs \<and> 0 < time inputs)"

text \<open>
  The valid domain as the error taxonomy of the specification words it: it also asks
  for a positive toughness.
\<close>

definition physically_valid :: "FracInputs \<Rightarrow> bool" where
  "physically_valid inputs =
     (0 < E inputs \<and> 0 < mu inputs \<and> 0 < q inputs \<and> 0 < H inputs \<and> 0 < CL inputs
      \<and> 0 < K_IC inputs \<and> 0 < time inputs \<and> - 1 < nu inputs \<and> nu inputs < 0.5)"

text \<open>The default inputs with a zero injection time: an input outside the valid domain.\<close>

definition zero_time_inputs :: FracInputs where
  "zero_time_inputs = INITIAL_INPUTS\<lparr>time := 0\<rparr>"

text \<open>
  An input with unit parameters and a small leakoff coefficient: at it the PKN and Radial
  contained volumes exceed the injected volume.
\<close>

definition unit_inputs :: FracInputs where
  "unit_inputs =
     \<lparr>E = 1, nu = 0, sigma_min = 1, CL = 0.0001, mu = 1, q = 1, H = 1, K_IC = 1, time = 1,
      p_limit = 1, depth = 1\<rparr>"

section \<open>Double-precision arithmetic\<close>

text \<open>
  The second model of the engine computes as the program does, on IEEE-754 binary64
  values with round-to-nearest, ties-to-even. A value is a finite double, an infinity
  or NaN; the sign of zero is not represented (a zero divisor counts as \<open>+0\<close>; the engine
  never divides by a negative zero on the inputs considered here).

  \<open>fl\<close> rounds a real to the nearest double, subnormal range included, with no bound
  above; \<open>rnd\<close> adds the overflow to an infinity. The arithmetic operations follow the
  standard: the exact result of the operands, rounded once.
\<close>

datatype jsnum = Num real | PInf | NInf | NaN

definition round_even :: "real \<Rightarrow> int" where
  "round_even x =
     (let f = \<lfloor>x\<rfloor>; d = x - of_int f
      in if d < 1/2 then f else if 1/2 < d then f + 1 else if even f then f else f + 1)"

definition fl :: "real \<Rightarrow> real" where
  "fl x =
     (if x = 0 then 0
      else let e = max \<lfloor>log 2 \<bar>x\<bar>\<rfloor> (- 1022)
           in of_int (round_even (x * 2 powr (52 - of_int e))) * 2 powr (of_int e - 52))"

definition rnd :: "real \<Rightarrow> jsnum" where
  "rnd x =
     (let r = fl x
      in if 2 ^ 1024 \<le> r then PInf else if r \<le> - (2 ^ 1024) then NInf else Num r)"

fun jneg :: "jsnum \<Rightarrow> jsnum" where
  "jneg (Num a) = Num (- a)"
| "jneg PInf = NInf"
| "jneg NInf = PInf"
| "jneg NaN = NaN"

fun jadd :: "jsnum \<Rightarrow> jsnum \<Rightarrow> jsnum" where
  "jadd NaN y = NaN"
| "jadd x NaN = NaN"
| "jadd PInf NInf = NaN"
| "jadd NInf PInf = NaN"
| "jadd PInf y = PInf"
| "jadd x PInf = PInf"
| "jadd NInf y = NInf"
| "jadd x NInf = NInf"
| "jadd (Num a) (Num b) = rnd (a + b)"

definition jsub :: "jsnum \<Rightarrow> jsnum \<Rightarrow> jsnum" where
  "jsub x y = jadd x (jneg y)"

text \<open>The sign of a product or quotient with an infinity: the sign of the other
  operand decides; a zero times an infinity is NaN.\<close>

definition signed_inf :: "bool \<Rightarrow> jsnum" where
  "signed_inf negative = (if negative then NInf else PInf)"

fun jmul :: "jsnum \<Rightarrow> jsnum \<Rightarrow> jsnum" where
  "jmul NaN y = NaN"
| "jmul x NaN = NaN"
| "jmul PInf PInf = PInf"
| "jmul PInf NInf = NInf"
| "jmul NInf PInf = NInf"
| "jmul NInf NInf = PInf"
| "jmul PInf (Num b) = (if b = 0 then NaN else signed_inf (b < 0))"
| "jmul NInf (Num b) = (if b = 0 then NaN else signed_inf (0 < b))"
| "jmul (Num a) PInf = (if a = 0 then NaN else signed_inf (a < 0))"
| "jmul (Num a) NInf = (if a = 0 then NaN else signed_inf (0 < a))"
| "jmul (Num a) (Num b) = rnd (a * b)"

fun jdiv :: "jsnum \<Rightarrow> jsnum \<Rightarrow> jsnum" where
  "jdiv NaN y = NaN"
| "jdiv x NaN = NaN"
| "jdiv PInf PInf = NaN"
| "jdiv PInf NInf = NaN"
| "jdiv NInf PInf = NaN"
| "jdiv NInf NInf = NaN"
| "jdiv PInf (Num b) = signed_inf (b < 0)"
| "jdiv NInf (Num b) = signed_inf (0 \<le> b)"
| "jdiv (Num a) PInf = Num 0"
| "jdiv (Num a) NInf = Num 0"
| "jdiv (Num a) (Num b) =
     (if b = 0 then (if a = 0 then NaN else signed_inf (a < 0)) else rnd (a / b))"

fun jsqrt :: "jsnum \<Rightarrow> jsnum" where
  "jsqrt NaN = NaN"
| "jsqrt PInf = PInf"
| "jsqrt NInf = NaN"
| "jsqrt (Num a) = (if a < 0 then NaN else rnd (sqrt a))"

text \<open>
  \<^verbatim>\<open>Math.pow\<close>, by the cases of the language standard (Number::exponentiate). The
  last case, which the standard leaves to the implementation as an approximation of the
  real power, is taken correctly rounded; the statements below depend on it only through
  the sign of the result, or where every implementation agrees (a negative base with a
  fractional exponent, a power of an infinity or of 1, a small integer power).
\<close>

definition odd_integral :: "real \<Rightarrow> bool" where
  "odd_integral y = (y \<in> \<int> \<and> odd \<lfloor>y\<rfloor>)"

definition real_pow :: "real \<Rightarrow> real \<Rightarrow> real" where
  "real_pow x y =
     (if y \<in> \<int> then (if 0 \<le> y then x ^ nat \<lfloor>y\<rfloor> else inverse (x ^ nat \<lfloor>- y\<rfloor>))
      else x powr y)"

fun jpow :: "jsnum \<Rightarrow> jsnum \<Rightarrow> jsnum" where
  "jpow x NaN = NaN"
| "jpow NaN (Num y) = (if y = 0 then Num 1 else NaN)"
| "jpow NaN y = NaN"
| "jpow PInf (Num y) = (if y = 0 then Num 1 else if 0 < y then PInf else Num 0)"
| "jpow PInf PInf = PInf"
| "jpow PInf NInf = Num 0"
| "jpow NInf (Num y) =
     (if y = 0 then Num 1
      else if 0 < y then (if odd_integral y then NInf else PInf) else Num 0)"
| "jpow NInf PInf = PInf"
| "jpow NInf NInf = Num 0"
| "jpow (Num x) PInf =
     (if x = 0 then Num 0
      else if 1 < \<bar>x\<bar> then PInf else if \<bar>x\<bar> = 1 then NaN else Num 0)"
| "jpow (Num x) NInf =
     (if x = 0 then PInf
      else if 1 < \<bar>x\<bar> then Num 0 else if \<bar>x\<bar> = 1 then NaN else PInf)"
| "jpow (Num x) (Num y) =
     (if y = 0 then Num 1
      else if x = 0 then (if 0 < y then Num 0 else PInf)
      else if x < 0 \<and> y \<notin> \<int> then NaN
      else rnd (real_pow x y))"

text \<open>\<^verbatim>\<open>Math.min\<close> of two numbers, and the comparisons \<^verbatim>\<open><\<close> and \<^verbatim>\<open><=\<close>, false on NaN.\<close>

fun jless :: "jsnum \<Rightarrow> jsnum \<Rightarrow> bool" where
  "jless NaN y = False"
| "jless x NaN = False"
| "jless PInf y = False"
| "jless x NInf = False"
| "jless NInf y = True"
| "jless x PInf = True"
| "jless (Num a) (Num b) = (a < b)"

fun jle :: "jsnum \<Rightarrow> jsnum \<Rightarrow> bool" where
  "jle NaN y = False"
| "jle x NaN = False"
| "jle NInf y = True"
| "jle x PInf = True"
| "jle PInf y = False"
| "jle x NInf = False"
| "jle (Num a) (Num b) = (a \<le> b)"

fun jmin :: "jsnum \<Rightarrow> jsnum \<Rightarrow> jsnum" where
  "jmin NaN y = NaN"
| "jmin x NaN = NaN"
| "jmin x y = (if jless y x then y else x)"

definition Math_PI :: jsnum where
  "Math_PI = Num (884279719003555 / 281474976710656)"

section \<open>The engine in double arithmetic\<close>

text \<open>
  The same functions, operation by operation in the order the source evaluates them
  (products and quotients associate to the left), every literal rounded to a double and
  every operation rounded once. The fields of an input record are taken as the doubles
  the program receives.
\<close>

record Sol_d =
  sol_L_d :: jsnum
  sol_p_d :: jsnum
  sol_w_d :: jsnum

record TimeStep_d =
  ts_time_d :: jsnum
  ts_length_d :: jsnum
  ts_width_d :: jsnum
  ts_pressure_d :: jsnum

record ProfilePoint_d =
  pp_position_d :: jsnum
  pp_width_d :: jsnum

record ModelResult_d =
  mtype_d :: ModelType
  length_d :: jsnum
  width_avg_d :: jsnum
  width_max_d :: jsnum
  p_net_d :: jsnum
  p_well_d :: jsnum
  efficiency_d :: jsnum
  volume_injected_d :: jsnum
  volume_leakoff_d :: jsnum
  regime_d :: Regime
  warnings_d :: "string list"
  timeSeries_d :: "TimeStep_d list"
  profile_d :: "ProfilePoint_d list"

definition getEPrime_d :: "jsnum \<Rightarrow> jsnum \<Rightarrow> jsnum" where
  "getEPrime_d Ev nuv = jdiv Ev (jsub (Num 1) (jpow nuv (Num 2)))"

definition checkRegime_d ::
  "ModelType \<Rightarrow> jsnum \<Rightarrow> jsnum \<Rightarrow> jsnum \<Rightarrow> jsnum \<Rightarrow> jsnum \<Rightarrow> jsnum \<Rightarrow> Regime" where
  "checkRegime_d ty E_prime muv qv K_ICv R_or_L Hv =
     (let toughnessScore = jdiv K_ICv (jmul (jmul muv qv) (Num 1000000))
      in if jless (Num 100) toughnessScore then Toughness else Viscosity)"

function generateHistory_loop_d ::
  "jsnum \<Rightarrow> (jsnum \<Rightarrow> Sol_d) \<Rightarrow> nat \<Rightarrow> nat \<Rightarrow> TimeStep_d list \<Rightarrow> TimeStep_d list" where
  "generateHistory_loop_d totalTime calcAtTime steps i history =
     (if i \<le> steps then
        (let t = jmul (jdiv totalTime (Num (real steps))) (Num (real i));
             res = calcAtTime t
         in generateHistory_loop_d totalTime calcAtTime steps (Suc i)
              (history @ [\<lparr>ts_time_d = t, ts_length_d = sol_L_d res,
                           ts_width_d = sol_w_d res, ts_pressure_d = sol_p_d res\<rparr>]))
      else history)"
  by pat_completeness auto
termination
  by (relation "measure (\<lambda>(totalTime, calcAtTime, steps, i, history). Suc steps - i)") auto

declare generateHistory_loop_d.simps [simp del]

definition generateHistory_d :: "jsnum \<Rightarrow> (jsnum \<Rightarrow> Sol_d) \<Rightarrow> TimeStep_d list" where
  "generateHistory_d totalTime calcAtTime = generateHistory_loop_d totalTime calcAtTime 50 1 []"

function generateProfile_loop_d ::
  "jsnum \<Rightarrow> jsnum \<Rightarrow> jsnum \<Rightarrow> nat \<Rightarrow> nat \<Rightarrow> ProfilePoint_d list \<Rightarrow> ProfilePoint_d list" where
  "generateProfile_loop_d Lv w_max shapeExponent points i prof =
     (if i \<le> points then
        (let x = jmul (jdiv Lv (Num (real points))) (Num (real i));
             x_norm = jdiv x Lv;
             wv = jmul w_max (jpow (jsub (Num 1) x_norm) shapeExponent)
         in generateProfile_loop_d Lv w_max shapeExponent points (Suc i)
              (prof @ [\<lparr>pp_position_d = x, pp_width_d = wv\<rparr>]))
      else prof)"
  by pat_completeness auto
termination
  by (relation "measure (\<lambda>(Lv, w_max, shapeExponent, points, i, prof). Suc points - i)") auto

declare generateProfile_loop_d.simps [simp del]

definition generateProfile_d :: "jsnum \<Rightarrow> jsnum \<Rightarrow> jsnum \<Rightarrow> ProfilePoint_d list" where
  "generateProfile_d Lv w_max shapeExponent =
     generateProfile_loop_d Lv w_max shapeExponent 50 0 []"

text \<open>The harmonic combination \<^verbatim>\<open>1 / (1/L_no_leakoff + 1/L_high_leakoff)\<close> of the three
  solvers.\<close>

definition harmonic_d :: "jsnum \<Rightarrow> jsnum \<Rightarrow> jsnum" where
  "harmonic_d L_no_leakoff L_high_leakoff =
     jdiv (Num 1) (jadd (jdiv (Num 1) L_no_leakoff) (jdiv (Num 1) L_high_leakoff))"

definition PKN_L_no_leakoff_d :: "FracInputs \<Rightarrow> jsnum \<Rightarrow> jsnum \<Rightarrow> jsnum" where
  "PKN_L_no_leakoff_d inputs Ep t =
     jmul (jmul (rnd 0.68)
             (jpow (jdiv (jmul (jpow (Num (q inputs)) (Num 3)) Ep)
                         (jmul (Num (mu inputs)) (jpow (Num (H inputs)) (Num 4))))
                   (rnd 0.2)))
          (jpow t (rnd 0.8))"

definition PKN_L_high_leakoff_d :: "FracInputs \<Rightarrow> jsnum \<Rightarrow> jsnum" where
  "PKN_L_high_leakoff_d inputs t =
     jdiv (jmul (Num (q inputs)) (jsqrt t))
          (jmul (jmul (jmul (Num 2) Math_PI) (Num (CL inputs))) (Num (H inputs)))"

definition solvePKN_d :: "FracInputs \<Rightarrow> jsnum \<Rightarrow> jsnum \<Rightarrow> Sol_d" where
  "solvePKN_d inputs Ep t =
     (let L_no_leakoff = PKN_L_no_leakoff_d inputs Ep t;
          L_high_leakoff = PKN_L_high_leakoff_d inputs t;
          Lv = harmonic_d L_no_leakoff L_high_leakoff;
          p_netv = jmul (jmul (rnd 2.5)
                           (jpow (jdiv (jmul (jmul (Num (mu inputs)) (Num (q inputs))) Lv)
                                       (jpow (Num (H inputs)) (Num 4)))
                                 (rnd 0.25)))
                        (jpow Ep (rnd 0.75));
          w_maxv = jdiv (jmul (jmul (Num 3) p_netv) (Num (H inputs))) Ep
      in \<lparr>sol_L_d = Lv, sol_p_d = p_netv, sol_w_d = w_maxv\<rparr>)"

definition calculatePKN_d :: "FracInputs \<Rightarrow> ModelResult_d" where
  "calculatePKN_d inputs =
     (let Ep = getEPrime_d (Num (E inputs)) (Num (nu inputs));
          final = solvePKN_d inputs Ep (Num (time inputs));
          w_avg = jmul (jmul (jdiv Math_PI (Num 4)) (sol_w_d final)) (rnd 0.8);
          Vi = jmul (Num (q inputs)) (Num (time inputs));
          V_frac = jmul (jmul (jmul (sol_L_d final) (Num (H inputs))) w_avg) (Num 2)
      in \<lparr>mtype_d = PKN,
          length_d = sol_L_d final,
          width_avg_d = w_avg,
          width_max_d = sol_w_d final,
          p_net_d = sol_p_d final,
          p_well_d = jadd (Num (sigma_min inputs)) (sol_p_d final),
          efficiency_d = jmin (Num 1) (jdiv V_frac Vi),
          volume_injected_d = Vi,
          volume_leakoff_d = jsub Vi V_frac,
          regime_d = checkRegime_d PKN Ep (Num (mu inputs)) (Num (q inputs))
                       (Num (K_IC inputs)) (sol_L_d final) (Num (H inputs)),
          warnings_d = (if jless (sol_L_d final) (jmul (Num 2) (Num (H inputs)))
                        then [''L < 2H: PKN assumption violated (Short fracture).''] else []),
          timeSeries_d = generateHistory_d (Num (time inputs)) (solvePKN_d inputs Ep),
          profile_d = generateProfile_d (sol_L_d final) (sol_w_d final) (rnd 0.25)\<rparr>)"

definition KGD_L_no_leakoff_d :: "FracInputs \<Rightarrow> jsnum \<Rightarrow> jsnum \<Rightarrow> jsnum" where
  "KGD_L_no_leakoff_d inputs Ep t =
     jmul (jmul (rnd 0.48)
             (jpow (jdiv (jmul Ep (jpow (Num (q inputs)) (Num 3)))
                         (jmul (Num (mu inputs)) (jpow (Num (H inputs)) (Num 3))))
                   (jdiv (Num 1) (Num 6))))
          (jpow t (jdiv (Num 2) (Num 3)))"

definition KGD_L_high_leakoff_d :: "FracInputs \<Rightarrow> jsnum \<Rightarrow> jsnum" where
  "KGD_L_high_leakoff_d inputs t =
     jdiv (jmul (Num (q inputs)) (jsqrt t))
          (jmul (jmul (jmul (Num 2) Math_PI) (Num (CL inputs))) (Num (H inputs)))"

definition solveKGD_d :: "FracInputs \<Rightarrow> jsnum \<Rightarrow> jsnum \<Rightarrow> Sol_d" where
  "solveKGD_d inputs Ep t =
     (let L_no_leakoff = KGD_L_no_leakoff_d inputs Ep t;
          L_high_leakoff = KGD_L_high_leakoff_d inputs t;
          Lv = harmonic_d L_no_leakoff L_high_leakoff;
          w_maxv = jmul (rnd 1.32)
                     (jpow (jdiv (jmul (jmul (Num (mu inputs)) (Num (q inputs)))
                                       (jpow Lv (Num 2)))
                                 (jmul Ep (Num (H inputs))))
                           (rnd 0.25));
          p_netv = jdiv (jmul Ep w_maxv) (jmul (Num 4) Lv)
      in \<lparr>sol_L_d = Lv, sol_p_d = p_netv, sol_w_d = w_maxv\<rparr>)"

definition calculateKGD_d :: "FracInputs \<Rightarrow> ModelResult_d" where
  "calculateKGD_d inputs =
     (let Ep = getEPrime_d (Num (E inputs)) (Num (nu inputs));
          final = solveKGD_d inputs Ep (Num (time inputs));
          w_avg = jmul (jdiv Math_PI (Num 4)) (sol_w_d final);
          Vi = jmul (Num (q inputs)) (Num (time inputs));
          V_frac = jmul (jmul (jmul (Num 2) (sol_L_d final)) (Num (H inputs))) w_avg
      in \<lparr>mtype_d = KGD,
          length_d = sol_L_d final,
          width_avg_d = w_avg,
          width_max_d = sol_w_d final,
          p_net_d = sol_p_d final,
          p_well_d = jadd (Num (sigma_min inputs)) (sol_p_d final),
          efficiency_d = jmin (Num 1) (jdiv V_frac Vi),
          volume_injected_d = Vi,
          volume_leakoff_d = jsub Vi V_frac,
          regime_d = checkRegime_d KGD Ep (Num (mu inputs)) (Num (q inputs))
                       (Num (K_IC inputs)) (sol_L_d final) (Num (H inputs)),
          warnings_d = (if jless (Num (H inputs)) (sol_L_d final)
                        then [''L > H: KGD assumption violated (Long fracture).''] else []),
          timeSeries_d = generateHistory_d (Num (time inputs)) (solveKGD_d inputs Ep),
          profile_d = generateProfile_d (sol_L_d final) (sol_w_d final) (rnd 0.5)\<rparr>)"

definition Radial_R_no_leakoff_d :: "FracInputs \<Rightarrow> jsnum \<Rightarrow> jsnum \<Rightarrow> jsnum" where
  "Radial_R_no_leakoff_d inputs Ep t =
     jmul (jmul (rnd 0.52)
             (jpow (jdiv (jmul Ep (jpow (Num (q inputs)) (Num 3))) (Num (mu inputs)))
                   (jdiv (Num 1) (Num 9))))
          (jpow t (jdiv (Num 4) (Num 9)))"

definition Radial_R_high_leakoff_d :: "FracInputs \<Rightarrow> jsnum \<Rightarrow> jsnum" where
  "Radial_R_high_leakoff_d inputs t =
     jsqrt (jdiv (jmul (Num (q inputs)) (jsqrt t))
                 (jmul (jmul Math_PI Math_PI) (Num (CL inputs))))"

definition solveRadial_d :: "FracInputs \<Rightarrow> jsnum \<Rightarrow> jsnum \<Rightarrow> Sol_d" where
  "solveRadial_d inputs Ep t =
     (let R_no_leakoff = Radial_R_no_leakoff_d inputs Ep t;
          R_high_leakoff = Radial_R_high_leakoff_d inputs t;
          R = harmonic_d R_no_leakoff R_high_leakoff;
          p_netv = jmul (rnd 1.25)
                     (jpow (jdiv (jmul (jmul (Num (mu inputs)) (Num (q inputs)))
                                       (jpow Ep (Num 2)))
                                 (jpow R (Num 3)))
                           (rnd 0.25));
          w_maxv = jdiv (jmul (jmul (Num 8) p_netv) R) (jmul Math_PI Ep)
      in \<lparr>sol_L_d = R, sol_p_d = p_netv, sol_w_d = w_maxv\<rparr>)"

definition calculateRadial_d :: "FracInputs \<Rightarrow> ModelResult_d" where
  "calculateRadial_d inputs =
     (let Ep = getEPrime_d (Num (E inputs)) (Num (nu inputs));
          final = solveRadial_d inputs Ep (Num (time inputs));
          w_avg = jmul (jdiv (Num 2) (Num 3)) (sol_w_d final);
          Vi = jmul (Num (q inputs)) (Num (time inputs));
          V_frac = jmul (jmul (jmul Math_PI (sol_L_d final)) (sol_L_d final)) w_avg
      in \<lparr>mtype_d = RADIAL,
          length_d = sol_L_d final,
          width_avg_d = w_avg,
          width_max_d = sol_w_d final,
          p_net_d = sol_p_d final,
          p_well_d = jadd (Num (sigma_min inputs)) (sol_p_d final),
          efficiency_d = jmin (Num 1) (jdiv V_frac Vi),
          volume_injected_d = Vi,
          volume_leakoff_d = jsub Vi V_frac,
          regime_d = checkRegime_d RADIAL Ep (Num (mu inputs)) (Num (q inputs))
                       (Num (K_IC inputs)) (sol_L_d final) (Num 0),
          warnings_d = [],
          timeSeries_d = generateHistory_d (Num (time inputs)) (solveRadial_d inputs Ep),
          profile_d = generateProfile_d (sol_L_d final) (sol_w_d final) (rnd 0.5)\<rparr>)"

text \<open>The dispatch of the entry point, in double arithmetic.\<close>

definition compute_d :: "ModelType \<Rightarrow> FracInputs \<Rightarrow> ModelResult_d" where
  "compute_d selectedModel siInputs =
     (case selectedModel of
        KGD \<Rightarrow> calculateKGD_d siInputs
      | RADIAL \<Rightarrow> calculateRadial_d siInputs
      | PKN \<Rightarrow> calculatePKN_d siInputs)"

section \<open>Inputs and predicates of the double model\<close>



definition stiff_inputs :: FracInputs where
  "stiff_inputs =
     \<lparr>E = 2 ^ 1023, nu = 0, sigma_min = 1, CL = 1, mu = 1, q = 3, H = 1, K_IC = 1, time = 1,
      p_limit = 1, depth = 1\<rparr>"

section \<open>Properties in exact arithmetic\<close>

subsection \<open>Shared facts\<close>

lemma valid_INITIAL_INPUTS: "valid_inputs INITIAL_INPUTS"
  by (simp add: valid_inputs_def INITIAL_INPUTS_def)

text \<open>The power function at the exponents the engine uses.\<close>

lemma Math_pow_2: "Math_pow x 2 = x ^ 2"
  by (simp add: Math_pow_def)
lemma Math_pow_3: "Math_pow x 3 = x ^ 3"
  by (simp add: Math_pow_def)
lemma Math_pow_4: "Math_pow x 4 = x ^ 4"
  by (simp add: Math_pow_def)

lemma frac_not_Int: "0 < y \<Longrightarrow> y < 1 \<Longrightarrow> (y::real) \<notin> \<int>"
  by (metis Ints_cases int_one_le_iff_zero_less not_less of_int_0_less_iff of_int_1 of_int_less_iff)

lemma Math_pow_frac: "0 < y \<Longrightarrow> y < 1 \<Longrightarrow> Math_pow x y = x powr y"
  using frac_not_Int[of y] by (simp add: Math_pow_def)

lemma getEPrime_pos:
  assumes "0 < Ev" "- 1 < nuv" "nuv < 0.5"
  shows "0 < getEPrime Ev nuv"
proof -
  have "\<bar>nuv\<bar> < 1" using assms by simp
  then have "nuv ^ 2 < 1" by (simp add: abs_square_less_1)
  then show ?thesis using assms by (simp add: getEPrime_def Math_pow_2)
qed

lemma harmonic_pos:
  fixes a b :: real
  assumes "0 < a" "0 < b"
  shows "0 < 1 / (1 / a + 1 / b)"
  using assms by (simp add: add_pos_pos)

lemma harmonic_le_left:
  fixes a b :: real
  assumes "0 < a" "0 < b"
  shows "1 / (1 / a + 1 / b) \<le> a"
proof -
  have "1 / a \<le> 1 / a + 1 / b" using assms by simp
  moreover have "0 < 1 / a" using assms by simp
  ultimately have "1 / (1 / a + 1 / b) \<le> 1 / (1 / a)"
    by (intro frac_le) simp_all
  then show ?thesis by simp
qed

lemma harmonic_le_min:
  fixes a b :: real
  assumes "0 < a" "0 < b"
  shows "1 / (1 / a + 1 / b) \<le> min a b"
  using harmonic_le_left[OF assms] harmonic_le_left[OF assms(2) assms(1)]
  by (simp add: add.commute)

lemma harmonic_mono:
  fixes a b a' b' :: real
  assumes "0 < a" "a \<le> a'" "0 < b" "b \<le> b'"
  shows "1 / (1 / a + 1 / b) \<le> 1 / (1 / a' + 1 / b')"
proof -
  have pa: "0 < a'" and pb: "0 < b'" using assms by linarith+
  have "1 / a' \<le> 1 / a" using assms by (simp add: frac_le)
  moreover have "1 / b' \<le> 1 / b" using assms by (simp add: frac_le)
  ultimately have le: "1 / a' + 1 / b' \<le> 1 / a + 1 / b" by linarith
  have pos: "0 < 1 / a' + 1 / b'" using pa pb by (simp add: add_pos_pos)
  show ?thesis using le pos by (simp add: frac_le)
qed

lemma PKN_L_no_leakoff_pos:
  assumes "valid_inputs inputs" "0 < Ep" "0 < t"
  shows "0 < PKN_L_no_leakoff inputs Ep t"
  using assms
  by (simp add: PKN_L_no_leakoff_def valid_inputs_def Math_pow_3 Math_pow_4 Math_pow_frac)

lemma high_leakoff_pos:
  assumes "valid_inputs inputs" "0 < t"
  shows "0 < PKN_L_high_leakoff inputs t" "0 < KGD_L_high_leakoff inputs t"
    "0 < Radial_R_high_leakoff inputs t"
  using assms
  by (simp_all add: PKN_L_high_leakoff_def KGD_L_high_leakoff_def Radial_R_high_leakoff_def
      valid_inputs_def)

lemma KGD_L_no_leakoff_pos:
  assumes "valid_inputs inputs" "0 < Ep" "0 < t"
  shows "0 < KGD_L_no_leakoff inputs Ep t"
  using assms
  by (simp add: KGD_L_no_leakoff_def valid_inputs_def Math_pow_3 Math_pow_frac)

lemma Radial_R_no_leakoff_pos:
  assumes "valid_inputs inputs" "0 < Ep" "0 < t"
  shows "0 < Radial_R_no_leakoff inputs Ep t"
  using assms
  by (simp add: Radial_R_no_leakoff_def valid_inputs_def Math_pow_3 Math_pow_frac)

lemma valid_Ep_pos: "valid_inputs inputs \<Longrightarrow> 0 < getEPrime (E inputs) (nu inputs)"
  by (simp add: valid_inputs_def getEPrime_pos)

lemma sol_L_PKN:
  "sol_L (solvePKN inputs Ep t) = 1 / (1 / PKN_L_no_leakoff inputs Ep t + 1 / PKN_L_high_leakoff inputs t)"
  by (simp add: solvePKN_def Let_def)
lemma sol_L_KGD:
  "sol_L (solveKGD inputs Ep t) = 1 / (1 / KGD_L_no_leakoff inputs Ep t + 1 / KGD_L_high_leakoff inputs t)"
  by (simp add: solveKGD_def Let_def)
lemma sol_L_Radial:
  "sol_L (solveRadial inputs Ep t) = 1 / (1 / Radial_R_no_leakoff inputs Ep t + 1 / Radial_R_high_leakoff inputs t)"
  by (simp add: solveRadial_def Let_def)

lemma length_m_calc:
  "length_m (calculatePKN inputs) = sol_L (solvePKN inputs (getEPrime (E inputs) (nu inputs)) (time inputs))"
  "length_m (calculateKGD inputs) = sol_L (solveKGD inputs (getEPrime (E inputs) (nu inputs)) (time inputs))"
  "length_m (calculateRadial inputs) = sol_L (solveRadial inputs (getEPrime (E inputs) (nu inputs)) (time inputs))"
  by (simp_all add: calculatePKN_def calculateKGD_def calculateRadial_def Let_def)

lemma sol_w_PKN_nonneg:
  assumes "valid_inputs inputs" "0 < Ep"
  shows "0 \<le> sol_w (solvePKN inputs Ep t)"
  using assms
  by (simp add: solvePKN_def Let_def valid_inputs_def Math_pow_frac)

lemma sol_w_KGD_nonneg: "0 \<le> sol_w (solveKGD inputs Ep t)"
  by (simp add: solveKGD_def Let_def Math_pow_frac)

lemma sol_w_Radial_nonneg:
  assumes "valid_inputs inputs" "0 < Ep" "0 < t"
  shows "0 \<le> sol_w (solveRadial inputs Ep t)"
proof -
  have "0 < sol_L (solveRadial inputs Ep t)"
    unfolding sol_L_Radial
    by (rule harmonic_pos [OF Radial_R_no_leakoff_pos [OF assms] high_leakoff_pos(3) [OF assms(1,3)]])
  then show ?thesis using assms(2)
    by (simp add: solveRadial_def Let_def Math_pow_frac)
qed

lemma sol_L_pos:
  assumes "valid_inputs inputs" "0 < Ep" "0 < t"
  shows "0 < sol_L (solvePKN inputs Ep t)" "0 < sol_L (solveKGD inputs Ep t)"
    "0 < sol_L (solveRadial inputs Ep t)"
  unfolding sol_L_PKN sol_L_KGD sol_L_Radial
  by (rule harmonic_pos [OF PKN_L_no_leakoff_pos [OF assms] high_leakoff_pos(1) [OF assms(1,3)]],
      rule harmonic_pos [OF KGD_L_no_leakoff_pos [OF assms] high_leakoff_pos(2) [OF assms(1,3)]],
      rule harmonic_pos [OF Radial_R_no_leakoff_pos [OF assms] high_leakoff_pos(3) [OF assms(1,3)]])

lemma result_fields_PKN:
  "width_avg (calculatePKN inputs)
     = (pi / 4) * sol_w (solvePKN inputs (getEPrime (E inputs) (nu inputs)) (time inputs)) * 0.8"
  "volume_injected (calculatePKN inputs) = q inputs * time inputs"
  "volume_leakoff (calculatePKN inputs)
     = q inputs * time inputs
       - 2 * length_m (calculatePKN inputs) * H inputs * width_avg (calculatePKN inputs)"
  "efficiency (calculatePKN inputs)
     = min 1 (2 * length_m (calculatePKN inputs) * H inputs * width_avg (calculatePKN inputs)
              / (q inputs * time inputs))"
  by (simp_all add: calculatePKN_def Let_def mult_ac)

lemma result_fields_KGD:
  "width_avg (calculateKGD inputs)
     = (pi / 4) * sol_w (solveKGD inputs (getEPrime (E inputs) (nu inputs)) (time inputs))"
  "volume_injected (calculateKGD inputs) = q inputs * time inputs"
  "volume_leakoff (calculateKGD inputs)
     = q inputs * time inputs
       - 2 * length_m (calculateKGD inputs) * H inputs * width_avg (calculateKGD inputs)"
  "efficiency (calculateKGD inputs)
     = min 1 (2 * length_m (calculateKGD inputs) * H inputs * width_avg (calculateKGD inputs)
              / (q inputs * time inputs))"
  by (simp_all add: calculateKGD_def Let_def mult_ac)

lemma result_fields_Radial:
  "width_avg (calculateRadial inputs)
     = 2 / 3 * sol_w (solveRadial inputs (getEPrime (E inputs) (nu inputs)) (time inputs))"
  "volume_injected (calculateRadial inputs) = q inputs * time inputs"
  "volume_leakoff (calculateRadial inputs)
     = q inputs * time inputs
       - pi * (length_m (calculateRadial inputs))\<^sup>2 * width_avg (calculateRadial inputs)"
  "efficiency (calculateRadial inputs)
     = min 1 (pi * (length_m (calculateRadial inputs))\<^sup>2 * width_avg (calculateRadial inputs)
              / (q inputs * time inputs))"
  by (simp_all add: calculateRadial_def Let_def power2_eq_square mult_ac)

lemma width_avg_nonneg:
  assumes "valid_inputs inputs"
  shows "0 \<le> width_avg (calculatePKN inputs)" "0 \<le> width_avg (calculateKGD inputs)"
    "0 \<le> width_avg (calculateRadial inputs)"
proof -
  have Ep: "0 < getEPrime (E inputs) (nu inputs)" using assms by (rule valid_Ep_pos)
  have t: "0 < time inputs" using assms by (simp add: valid_inputs_def)
  show "0 \<le> width_avg (calculatePKN inputs)"
    unfolding result_fields_PKN using sol_w_PKN_nonneg [OF assms Ep, of "time inputs"] by simp
  show "0 \<le> width_avg (calculateKGD inputs)"
    unfolding result_fields_KGD
    using sol_w_KGD_nonneg [of inputs "getEPrime (E inputs) (nu inputs)" "time inputs"] by simp
  show "0 \<le> width_avg (calculateRadial inputs)"
    unfolding result_fields_Radial using sol_w_Radial_nonneg [OF assms Ep t] by simp
qed

lemma length_m_pos:
  assumes "valid_inputs inputs"
  shows "0 < length_m (calculatePKN inputs)" "0 < length_m (calculateKGD inputs)"
    "0 < length_m (calculateRadial inputs)"
proof -
  have Ep: "0 < getEPrime (E inputs) (nu inputs)" using assms by (rule valid_Ep_pos)
  have t: "0 < time inputs" using assms by (simp add: valid_inputs_def)
  show "0 < length_m (calculatePKN inputs)" "0 < length_m (calculateKGD inputs)"
    "0 < length_m (calculateRadial inputs)"
    unfolding length_m_calc using sol_L_pos [OF assms Ep t] by simp_all
qed

lemma min_one_quotient_range:
  fixes v vi :: real
  assumes "0 \<le> v" "0 < vi"
  shows "0 \<le> min 1 (v / vi)" "min 1 (v / vi) \<le> 1"
  using assms by simp_all

text \<open>The engine at the unit inputs.\<close>

lemma valid_unit_inputs: "valid_inputs unit_inputs"
  by (simp add: valid_inputs_def unit_inputs_def)

lemma Ep_unit: "getEPrime 1 0 = 1"
  by (simp add: getEPrime_def Math_pow_2)

lemma unit_fields:
  "E unit_inputs = 1" "nu unit_inputs = 0" "CL unit_inputs = 0.0001" "mu unit_inputs = 1"
  "q unit_inputs = 1" "H unit_inputs = 1" "time unit_inputs = 1"
  by (simp_all add: unit_inputs_def)

lemma PKN_unit_length:
  "length_m (calculatePKN unit_inputs) = 1 / (25 / 17 + pi / 5000)"
  by (simp add: length_m_calc sol_L_PKN Ep_unit PKN_L_no_leakoff_def PKN_L_high_leakoff_def
      unit_fields Math_pow_3 Math_pow_4 Math_pow_frac)

lemma PKN_unit_length_bounds:
  "0.6 \<le> length_m (calculatePKN unit_inputs)" "length_m (calculatePKN unit_inputs) \<le> 1"
proof -
  have p: "0 < pi" "pi < 4" using pi_gt_zero pi_less_4 by auto
  have d: "25 / 17 + pi / 5000 \<le> 5 / 3" "1 \<le> 25 / 17 + pi / 5000" using p by linarith+
  have "1 / (5 / 3) \<le> 1 / (25 / 17 + pi / 5000)"
    using d by (intro divide_left_mono) simp_all
  then show "0.6 \<le> length_m (calculatePKN unit_inputs)"
    unfolding PKN_unit_length by simp
  have "1 / (25 / 17 + pi / 5000) \<le> 1 / 1"
    using d by (intro divide_left_mono) simp_all
  then show "length_m (calculatePKN unit_inputs) \<le> 1"
    unfolding PKN_unit_length by simp
qed

lemma PKN_unit_width_avg:
  "width_avg (calculatePKN unit_inputs)
     = 3 / 2 * pi * length_m (calculatePKN unit_inputs) powr 0.25"
  unfolding result_fields_PKN(1) length_m_calc sol_L_PKN
  by (simp add: solvePKN_def Let_def Ep_unit unit_fields Math_pow_4 Math_pow_frac)

lemma PKN_unit_contained:
  "q unit_inputs * time unit_inputs
     < 2 * length_m (calculatePKN unit_inputs) * H unit_inputs * width_avg (calculatePKN unit_inputs)"
proof -
  define l where "l = length_m (calculatePKN unit_inputs)"
  have lb: "0.6 \<le> l" "l \<le> 1" unfolding l_def by (rule PKN_unit_length_bounds)+
  have "l powr 1 \<le> l powr 0.25" using lb by (intro powr_mono') simp_all
  then have r: "0.6 \<le> l powr 0.25" using lb by simp
  have "0.6 * 0.6 \<le> l * l powr 0.25"
    using lb(1) r by (intro mult_mono) simp_all
  then have "0.36 \<le> l * l powr 0.25" by simp
  moreover have "2 \<le> pi" by (rule pi_ge_two)
  ultimately have "2 * 0.36 \<le> pi * (l * l powr 0.25)"
    by (intro mult_mono) simp_all
  then have "1 < 3 * pi * (l * l powr 0.25)" by simp
  then show ?thesis
    unfolding PKN_unit_width_avg unfolding l_def [symmetric] by (simp add: unit_fields)
qed

lemma root4_ge:
  fixes a y :: real
  assumes "0 \<le> a" "a ^ 4 \<le> y"
  shows "a \<le> y powr (1 / 4)"
proof -
  have "a = (a ^ 4) powr (1 / 4)"
    using assms(1) by (simp add: powr_powr flip: powr_numeral)
  also have "\<dots> \<le> y powr (1 / 4)"
    using assms by (intro powr_mono2) simp_all
  finally show ?thesis .
qed

lemma Radial_unit_length:
  "length_m (calculateRadial unit_inputs) = 1 / (25 / 13 + pi / 100)"
  by (simp add: length_m_calc sol_L_Radial Ep_unit Radial_R_no_leakoff_def
      Radial_R_high_leakoff_def unit_fields Math_pow_3 Math_pow_frac real_sqrt_divide)

lemma Radial_unit_length_bounds:
  "0.5 \<le> length_m (calculateRadial unit_inputs)" "length_m (calculateRadial unit_inputs) \<le> 0.52"
proof -
  have p: "0 < pi" "pi < 4" using pi_gt_zero pi_less_4 by auto
  have d: "25 / 13 + pi / 100 \<le> 2" "25 / 13 \<le> 25 / 13 + pi / 100"
    "0 < 25 / 13 + pi / 100" using p by linarith+
  have "1 / 2 \<le> 1 / (25 / 13 + pi / 100)"
    using d by (intro frac_le) simp_all
  then show "0.5 \<le> length_m (calculateRadial unit_inputs)"
    unfolding Radial_unit_length by simp
  have "1 / (25 / 13 + pi / 100) \<le> 1 / (25 / 13)"
    using d by (intro frac_le) simp_all
  then show "length_m (calculateRadial unit_inputs) \<le> 0.52"
    unfolding Radial_unit_length by simp
qed

lemma Radial_unit_contained_eq:
  "pi * (length_m (calculateRadial unit_inputs))\<^sup>2 * width_avg (calculateRadial unit_inputs)
     = 20 / 3 * (length_m (calculateRadial unit_inputs)) ^ 3
         * (1 / (length_m (calculateRadial unit_inputs)) ^ 3) powr (1 / 4)"
  unfolding result_fields_Radial(1) length_m_calc sol_L_Radial
  by (simp add: solveRadial_def Let_def Ep_unit unit_fields Math_pow_2 Math_pow_3 Math_pow_frac
      power2_eq_square power3_eq_cube)

lemma Radial_unit_contained:
  "q unit_inputs * time unit_inputs
     < pi * (length_m (calculateRadial unit_inputs))\<^sup>2 * width_avg (calculateRadial unit_inputs)"
proof -
  define r where "r = length_m (calculateRadial unit_inputs)"
  have rb: "0.5 \<le> r" "r \<le> 0.52" unfolding r_def by (rule Radial_unit_length_bounds)+
  have r3: "0.5 ^ 3 \<le> r ^ 3" "r ^ 3 \<le> 0.52 ^ 3"
    using rb by (intro power_mono; simp)+
  have r3': "0.125 \<le> r ^ 3" using r3(1) by (simp add: power_divide)
  have "1 / 0.52 ^ 3 \<le> 1 / r ^ 3"
    using r3 rb by (intro divide_left_mono) simp_all
  moreover have "(1.6::real) ^ 4 \<le> 1 / 0.52 ^ 3" by (simp add: power_divide)
  ultimately have "(1.6::real) ^ 4 \<le> 1 / r ^ 3" by linarith
  then have "1.6 \<le> (1 / r ^ 3) powr (1 / 4)" by (intro root4_ge) simp_all
  with r3' rb(1) have "0.125 * 1.6 \<le> r ^ 3 * (1 / r ^ 3) powr (1 / 4)"
    by (intro mult_mono) simp_all
  then have "1 < 20 / 3 * r ^ 3 * (1 / r ^ 3) powr (1 / 4)" by simp
  then show ?thesis
    unfolding Radial_unit_contained_eq unfolding r_def [symmetric] by (simp add: unit_fields)
qed

text \<open>The two sampling loops as maps over the loop index.\<close>

lemma generateHistory_loop_eq:
  "i \<le> Suc steps \<Longrightarrow>
   generateHistory_loop totalTime calcAtTime steps i history =
     history @ map (\<lambda>k. \<lparr>ts_time = (totalTime / real steps) * real k,
                          ts_length = sol_L (calcAtTime ((totalTime / real steps) * real k)),
                          ts_width = sol_w (calcAtTime ((totalTime / real steps) * real k)),
                          ts_pressure = sol_p (calcAtTime ((totalTime / real steps) * real k))\<rparr>)
                 [i..<Suc steps]"
proof (induction totalTime calcAtTime steps i history rule: generateHistory_loop.induct)
  case (1 totalTime calcAtTime steps i history)
  show ?case
  proof (cases "i \<le> steps")
    case True
    then have "[i..<Suc steps] = i # [Suc i..<Suc steps]"
      by (simp add: upt_conv_Cons)
    with True "1.IH" [OF True refl refl] show ?thesis
      by (subst generateHistory_loop.simps) (simp add: Let_def)
  next
    case False
    with "1.prems" have "i = Suc steps" by simp
    then show ?thesis
      by (subst generateHistory_loop.simps) simp
  qed
qed

lemma generateHistory_eq:
  "generateHistory totalTime calcAtTime =
     map (\<lambda>k. \<lparr>ts_time = (totalTime / 50) * real k,
               ts_length = sol_L (calcAtTime ((totalTime / 50) * real k)),
               ts_width = sol_w (calcAtTime ((totalTime / 50) * real k)),
               ts_pressure = sol_p (calcAtTime ((totalTime / 50) * real k))\<rparr>)
         [1..<51]"
  unfolding generateHistory_def
  by (subst generateHistory_loop_eq) simp_all

lemma generateProfile_loop_eq:
  "i \<le> Suc points \<Longrightarrow>
   generateProfile_loop Lv w_max shapeExponent points i prof =
     prof @ map (\<lambda>k. \<lparr>pp_position = (Lv / real points) * real k,
                       pp_width = w_max * Math_pow (1 - (Lv / real points) * real k / Lv) shapeExponent\<rparr>)
              [i..<Suc points]"
proof (induction Lv w_max shapeExponent points i prof rule: generateProfile_loop.induct)
  case (1 Lv w_max shapeExponent points i prof)
  show ?case
  proof (cases "i \<le> points")
    case True
    then have "[i..<Suc points] = i # [Suc i..<Suc points]"
      by (simp add: upt_conv_Cons)
    with True "1.IH" [OF True refl refl refl] show ?thesis
      by (subst generateProfile_loop.simps) (simp add: Let_def)
  next
    case False
    with "1.prems" have "i = Suc points" by simp
    then show ?thesis
      by (subst generateProfile_loop.simps) simp
  qed
qed

lemma generateProfile_eq:
  "generateProfile Lv w_max shapeExponent =
     map (\<lambda>k. \<lparr>pp_position = (Lv / 50) * real k,
               pp_width = w_max * Math_pow (1 - (Lv / 50) * real k / Lv) shapeExponent\<rparr>)
         [0..<51]"
  unfolding generateProfile_def
  by (subst generateProfile_loop_eq) simp_all

lemma sorted_wrt_map_upt:
  assumes "\<And>i j. a \<le> i \<Longrightarrow> i < j \<Longrightarrow> j < b \<Longrightarrow> P (f i) (f j)"
  shows "sorted_wrt P (map f [a..<b])"
  by (simp add: sorted_wrt_iff_nth_less assms)

text \<open>Each solver's extent grows with time.\<close>

lemma PKN_L_no_leakoff_mono:
  assumes "valid_inputs inputs" "0 < Ep" "0 < s" "s \<le> t"
  shows "PKN_L_no_leakoff inputs Ep s \<le> PKN_L_no_leakoff inputs Ep t"
proof -
  have "s powr 0.8 \<le> t powr 0.8" using assms by (intro powr_mono2) simp_all
  then show ?thesis
    unfolding PKN_L_no_leakoff_def
    by (intro mult_left_mono) (simp_all add: Math_pow_frac)
qed

lemma KGD_L_no_leakoff_mono:
  assumes "valid_inputs inputs" "0 < Ep" "0 < s" "s \<le> t"
  shows "KGD_L_no_leakoff inputs Ep s \<le> KGD_L_no_leakoff inputs Ep t"
proof -
  have "s powr (2/3) \<le> t powr (2/3)" using assms by (intro powr_mono2) simp_all
  then show ?thesis
    unfolding KGD_L_no_leakoff_def
    by (intro mult_left_mono) (simp_all add: Math_pow_frac)
qed

lemma Radial_R_no_leakoff_mono:
  assumes "valid_inputs inputs" "0 < Ep" "0 < s" "s \<le> t"
  shows "Radial_R_no_leakoff inputs Ep s \<le> Radial_R_no_leakoff inputs Ep t"
proof -
  have "s powr (4/9) \<le> t powr (4/9)" using assms by (intro powr_mono2) simp_all
  then show ?thesis
    unfolding Radial_R_no_leakoff_def
    by (intro mult_left_mono) (simp_all add: Math_pow_frac)
qed

lemma high_leakoff_mono:
  assumes "valid_inputs inputs" "0 < s" "s \<le> t"
  shows "PKN_L_high_leakoff inputs s \<le> PKN_L_high_leakoff inputs t"
    "KGD_L_high_leakoff inputs s \<le> KGD_L_high_leakoff inputs t"
    "Radial_R_high_leakoff inputs s \<le> Radial_R_high_leakoff inputs t"
proof -
  have v: "0 < q inputs" "0 < CL inputs" "0 < H inputs"
    using assms(1) by (simp_all add: valid_inputs_def)
  have r: "sqrt s \<le> sqrt t" using assms by simp
  then have m: "q inputs * sqrt s \<le> q inputs * sqrt t"
    using v by (simp add: mult_left_mono)
  show "PKN_L_high_leakoff inputs s \<le> PKN_L_high_leakoff inputs t"
    unfolding PKN_L_high_leakoff_def using m v by (intro divide_right_mono) simp_all
  show "KGD_L_high_leakoff inputs s \<le> KGD_L_high_leakoff inputs t"
    unfolding KGD_L_high_leakoff_def using m v by (intro divide_right_mono) simp_all
  have "q inputs * sqrt s / (pi * pi * CL inputs) \<le> q inputs * sqrt t / (pi * pi * CL inputs)"
    using m v by (intro divide_right_mono) simp_all
  then show "Radial_R_high_leakoff inputs s \<le> Radial_R_high_leakoff inputs t"
    unfolding Radial_R_high_leakoff_def by simp
qed

lemma sol_L_mono:
  assumes "valid_inputs inputs" "0 < Ep" "0 < s" "s \<le> t"
  shows "sol_L (solvePKN inputs Ep s) \<le> sol_L (solvePKN inputs Ep t)"
    "sol_L (solveKGD inputs Ep s) \<le> sol_L (solveKGD inputs Ep t)"
    "sol_L (solveRadial inputs Ep s) \<le> sol_L (solveRadial inputs Ep t)"
  unfolding sol_L_PKN sol_L_KGD sol_L_Radial
  by (rule harmonic_mono [OF PKN_L_no_leakoff_pos [OF assms(1-3)] PKN_L_no_leakoff_mono [OF assms]
        high_leakoff_pos(1) [OF assms(1,3)] high_leakoff_mono(1) [OF assms(1,3,4)]],
      rule harmonic_mono [OF KGD_L_no_leakoff_pos [OF assms(1-3)] KGD_L_no_leakoff_mono [OF assms]
        high_leakoff_pos(2) [OF assms(1,3)] high_leakoff_mono(2) [OF assms(1,3,4)]],
      rule harmonic_mono [OF Radial_R_no_leakoff_pos [OF assms(1-3)] Radial_R_no_leakoff_mono [OF assms]
        high_leakoff_pos(3) [OF assms(1,3)] high_leakoff_mono(3) [OF assms(1,3,4)]])

text \<open>The history of a solver whose extent grows with time.\<close>

lemma generateHistory_shape:
  "length (generateHistory T f) = 50"
  "i < 50 \<Longrightarrow> ts_time (generateHistory T f ! i) = real (Suc i) * T / 50"
  "i < 50 \<Longrightarrow> generateHistory T f ! i =
     \<lparr>ts_time = (T / 50) * real (Suc i), ts_length = sol_L (f ((T / 50) * real (Suc i))),
      ts_width = sol_w (f ((T / 50) * real (Suc i))),
      ts_pressure = sol_p (f ((T / 50) * real (Suc i)))\<rparr>"
  by (simp_all add: generateHistory_eq)

lemma generateHistory_times_ascending:
  assumes "0 < T"
  shows "sorted_wrt (<) (map ts_time (generateHistory T f))"
  unfolding generateHistory_eq map_map
  by (rule sorted_wrt_map_upt) (use assms in \<open>simp add: divide_strict_right_mono\<close>)

lemma generateHistory_length_sorted:
  assumes "0 < T" and mono: "\<And>s t. 0 < s \<Longrightarrow> s \<le> t \<Longrightarrow> sol_L (f s) \<le> sol_L (f t)"
  shows "sorted (map ts_length (generateHistory T f))"
  unfolding generateHistory_eq map_map
proof (rule sorted_wrt_map_upt)
  fix i j :: nat
  assume "1 \<le> i" "i < j" "j < 51"
  then have "0 < T / 50 * real i" "T / 50 * real i \<le> T / 50 * real j"
    using assms(1) by (simp_all add: mult_left_mono)
  then show "(ts_length \<circ> (\<lambda>k. \<lparr>ts_time = T / 50 * real k, ts_length = sol_L (f (T / 50 * real k)),
          ts_width = sol_w (f (T / 50 * real k)), ts_pressure = sol_p (f (T / 50 * real k))\<rparr>)) i
      \<le> (ts_length \<circ> (\<lambda>k. \<lparr>ts_time = T / 50 * real k, ts_length = sol_L (f (T / 50 * real k)),
          ts_width = sol_w (f (T / 50 * real k)), ts_pressure = sol_p (f (T / 50 * real k))\<rparr>)) j"
    by (simp add: mono)
qed

lemma generateHistory_last:
  "last (generateHistory T f)
     = \<lparr>ts_time = T, ts_length = sol_L (f T), ts_width = sol_w (f T), ts_pressure = sol_p (f T)\<rparr>"
proof -
  have "last (generateHistory T f) = generateHistory T f ! 49"
    by (simp add: last_conv_nth generateHistory_shape(1) flip: length_0_conv)
  then show ?thesis by (simp add: generateHistory_shape(3))
qed

lemma Math_pow_nonneg_base:
  assumes "0 \<le> b" "0 < e"
  shows "Math_pow b e = b powr e"
proof (cases "e \<in> \<int>")
  case False
  then show ?thesis using assms by (simp add: Math_pow_def)
next
  case True
  then obtain k :: int where k: "e = of_int k" by (auto elim: Ints_cases)
  with assms have kpos: "0 < k" by simp
  then have e: "e = real (nat k)" using k by simp
  have "b ^ nat k = b powr real (nat k)"
  proof (cases "b = 0")
    case True
    then show ?thesis using kpos by simp
  next
    case False
    with assms have "0 < b" by simp
    then show ?thesis by (simp add: powr_realpow)
  qed
  moreover have "Math_pow b e = b ^ nat k"
    using True assms k kpos by (simp add: Math_pow_def)
  ultimately show ?thesis using e by simp
qed

lemma timeSeries_calc:
  "timeSeries (calculatePKN inputs)
     = generateHistory (time inputs) (solvePKN inputs (getEPrime (E inputs) (nu inputs)))"
  "timeSeries (calculateKGD inputs)
     = generateHistory (time inputs) (solveKGD inputs (getEPrime (E inputs) (nu inputs)))"
  "timeSeries (calculateRadial inputs)
     = generateHistory (time inputs) (solveRadial inputs (getEPrime (E inputs) (nu inputs)))"
  by (simp_all add: calculatePKN_def calculateKGD_def calculateRadial_def Let_def)

lemma headline_calc:
  "width_max (calculatePKN inputs) = sol_w (solvePKN inputs (getEPrime (E inputs) (nu inputs)) (time inputs))"
  "p_net (calculatePKN inputs) = sol_p (solvePKN inputs (getEPrime (E inputs) (nu inputs)) (time inputs))"
  "width_max (calculateKGD inputs) = sol_w (solveKGD inputs (getEPrime (E inputs) (nu inputs)) (time inputs))"
  "p_net (calculateKGD inputs) = sol_p (solveKGD inputs (getEPrime (E inputs) (nu inputs)) (time inputs))"
  "width_max (calculateRadial inputs) = sol_w (solveRadial inputs (getEPrime (E inputs) (nu inputs)) (time inputs))"
  "p_net (calculateRadial inputs) = sol_p (solveRadial inputs (getEPrime (E inputs) (nu inputs)) (time inputs))"
  by (simp_all add: calculatePKN_def calculateKGD_def calculateRadial_def Let_def)

lemma compute_cases:
  assumes "compute m inputs = Inr r"
  obtains "m = PKN" "r = calculatePKN inputs" | "m = KGD" "r = calculateKGD inputs"
    | "m = RADIAL" "r = calculateRadial inputs"
  using assms by (cases m) (auto simp: compute_def)

lemma generateProfile_nth:
  assumes "i \<le> 50"
  shows "generateProfile Lv w e ! i
     = \<lparr>pp_position = (Lv / 50) * real i,
        pp_width = w * Math_pow (1 - (Lv / 50) * real i / Lv) e\<rparr>"
  using assms by (simp add: generateProfile_eq)

lemma profile_calc:
  "profile (calculatePKN inputs)
     = generateProfile (length_m (calculatePKN inputs)) (width_max (calculatePKN inputs)) 0.25"
  "profile (calculateKGD inputs)
     = generateProfile (length_m (calculateKGD inputs)) (width_max (calculateKGD inputs)) 0.5"
  "profile (calculateRadial inputs)
     = generateProfile (length_m (calculateRadial inputs)) (width_max (calculateRadial inputs)) 0.5"
  by (simp_all add: calculatePKN_def calculateKGD_def calculateRadial_def Let_def)

text \<open>Arithmetic of the KGD volume balance.\<close>

lemma sol_w_KGD:
  "sol_w (solveKGD inputs Ep t)
     = 1.32 * (mu inputs * q inputs * (sol_L (solveKGD inputs Ep t))\<^sup>2 / (Ep * H inputs)) powr (1/4)"
  by (simp add: solveKGD_def Let_def Math_pow_2 Math_pow_frac)

lemma powr_power_nat:
  fixes x a :: real
  assumes "0 < x"
  shows "(x powr a) ^ n = x powr (a * real n)"
  using assms by (simp add: powr_powr flip: powr_realpow)

lemma sixth_powers: 
  fixes A T :: real assumes "0 < A" "0 < T"
  shows "(A powr (1/6)) ^ 6 = A" "(T powr (2/3)) ^ 6 = T ^ 4"
proof -
  show "(A powr (1/6)) ^ 6 = A" using assms by (simp add: powr_power_nat)
  have "(T powr (2/3)) ^ 6 = T powr 4" using assms by (simp add: powr_power_nat)
  also have "\<dots> = T ^ 4" using assms by (simp add: powr_numeral)
  finally show "(T powr (2/3)) ^ 6 = T ^ 4" .
qed

lemma fourth_power_product:
  fixes Ln r B :: real
  assumes "r ^ 4 = B * Ln\<^sup>2"
  shows "(Ln * r) ^ 4 = B * Ln ^ 6"
proof -
  have "(Ln * r) ^ 4 = Ln ^ 4 * r ^ 4" by (rule power_mult_distrib)
  also have "\<dots> = Ln ^ 4 * (B * Ln ^ 2)" using assms by simp
  also have "\<dots> = B * (Ln ^ 4 * Ln ^ 2)" by simp
  also have "Ln ^ 4 * Ln ^ 2 = Ln ^ 6" by (simp flip: power_add)
  finally show ?thesis .
qed

lemma KGD_no_leakoff_sixth_power:
  fixes a6 t23 A T :: real
  assumes "a6 ^ 6 = A" "t23 ^ 6 = T ^ 4"
  shows "(0.48 * a6 * t23) ^ 6 = 0.48 ^ 6 * A * T ^ 4"
  using assms by (simp only: power_mult_distrib)

lemma KGD_groups_product:
  fixes Ep qv muv Hv :: real
  assumes "0 < Ep" "0 < qv" "0 < muv" "0 < Hv"
  shows "(muv * qv / (Ep * Hv)) * (Ep * qv ^ 3 / (muv * Hv ^ 3)) = qv ^ 4 / Hv ^ 4"
proof -
  have "(muv * qv / (Ep * Hv)) * (Ep * qv ^ 3 / (muv * Hv ^ 3))
      = (muv * Ep * (qv * qv ^ 3)) / (muv * Ep * (Hv * Hv ^ 3))"
    by simp
  also have "\<dots> = (qv * qv ^ 3) / (Hv * Hv ^ 3)"
    using assms by simp
  also have "\<dots> = qv ^ 4 / Hv ^ 4"
    by (simp add: power_numeral_reduce)
  finally show ?thesis .
qed

lemma KGD_volume_constant: "0.66 ^ 4 * 0.48 ^ 6 * (4::real) ^ 4 < 1"
  by (simp add: power_divide)

lemma KGD_volume_fourth_power:
  fixes Hv Xn B A T qv :: real
  assumes "Xn ^ 4 = B * (0.48 ^ 6 * A * T ^ 4)" "B * A = qv ^ 4 / Hv ^ 4" "0 < Hv"
  shows "(0.66 * pi * Hv * Xn) ^ 4 = (0.66 ^ 4 * 0.48 ^ 6 * pi ^ 4) * (qv * T) ^ 4"
proof -
  have "(0.66 * pi * Hv * Xn) ^ 4 = 0.66 ^ 4 * pi ^ 4 * Hv ^ 4 * Xn ^ 4"
    by (simp only: power_mult_distrib)
  also have "\<dots> = 0.66 ^ 4 * pi ^ 4 * Hv ^ 4 * ((B * A) * (0.48 ^ 6 * T ^ 4))"
    unfolding assms(1) by (simp only: mult_ac)
  also have "\<dots> = 0.66 ^ 4 * pi ^ 4 * (Hv ^ 4 * (qv ^ 4 / Hv ^ 4)) * (0.48 ^ 6 * T ^ 4)"
    unfolding assms(2) by (simp only: mult_ac)
  also have "Hv ^ 4 * (qv ^ 4 / Hv ^ 4) = qv ^ 4" using assms(3) by simp
  also have "0.66 ^ 4 * pi ^ 4 * qv ^ 4 * (0.48 ^ 6 * T ^ 4) = (0.66 ^ 4 * 0.48 ^ 6 * pi ^ 4) * (qv * T) ^ 4"
    by (simp only: power_mult_distrib mult_ac)
  finally show ?thesis .
qed

subsection \<open>Entry point\<close>

text \<open>
  C2, as stated: an input outside the valid domain is rejected as a typed failure before
  any solver runs. The code has no validation: at a zero injection time the entry point
  returns the PKN solver's result structure, whose injected volume, the denominator of
  the efficiency quotient, is zero.
\<close>

theorem invalid_input_not_rejected:
  "\<not> physically_valid zero_time_inputs
   \<and> compute PKN zero_time_inputs = Inr (calculatePKN zero_time_inputs)
   \<and> volume_injected (calculatePKN zero_time_inputs) = 0"
  by (simp add: physically_valid_def zero_time_inputs_def INITIAL_INPUTS_def compute_def
      calculatePKN_def Let_def)

text \<open>
  C2, amended: for every model variant and every input, inside the valid domain or not,
  the entry point runs the selected solver (PKN for the default branch) and returns its
  result structure; it never returns a failure.
\<close>

theorem compute_never_fails:
  "compute selectedModel inputs
     = Inr (if selectedModel = KGD then calculateKGD inputs
            else if selectedModel = RADIAL then calculateRadial inputs
            else calculatePKN inputs)"
  by (cases selectedModel) (simp_all add: compute_def)

subsection \<open>Warnings and regime\<close>

text \<open>
  C5: for every valid input, the PKN result has a warning if and only if its final length
  is below twice the height, the KGD result has one if and only if its final length
  exceeds the height, and the Radial result has none.
\<close>

theorem warnings_iff_geometry:
  "valid_inputs inputs \<Longrightarrow>
     (warnings (calculatePKN inputs) \<noteq> []) = (length_m (calculatePKN inputs) < 2 * H inputs)
     \<and> (warnings (calculateKGD inputs) \<noteq> []) = (length_m (calculateKGD inputs) > H inputs)
     \<and> warnings (calculateRadial inputs) = []"
  by (simp add: calculatePKN_def calculateKGD_def calculateRadial_def Let_def)

theorem warnings_iff_geometry_witness:
  "valid_inputs INITIAL_INPUTS
   \<and> (warnings (calculatePKN INITIAL_INPUTS) \<noteq> [])
       = (length_m (calculatePKN INITIAL_INPUTS) < 2 * H INITIAL_INPUTS)
   \<and> (warnings (calculateKGD INITIAL_INPUTS) \<noteq> [])
       = (length_m (calculateKGD INITIAL_INPUTS) > H INITIAL_INPUTS)
   \<and> warnings (calculateRadial INITIAL_INPUTS) = []"
proof -
  note v = valid_INITIAL_INPUTS
  from warnings_iff_geometry [OF v] v show ?thesis by blast
qed

text \<open>
  C6: for every valid input the regime label of each model's result is Toughness exactly
  when \<open>K_IC / (mu * q * 1e6)\<close> exceeds 100 and Viscosity otherwise; the three models
  give the same label, and the classifier's model-type, modulus and geometry arguments
  do not change it.
\<close>

theorem regime_threshold:
  "valid_inputs inputs \<Longrightarrow>
     regime (calculatePKN inputs)
       = (if K_IC inputs / (mu inputs * q inputs * 1000000) > 100 then Toughness else Viscosity)
     \<and> regime (calculateKGD inputs) = regime (calculatePKN inputs)
     \<and> regime (calculateRadial inputs) = regime (calculatePKN inputs)
     \<and> (\<forall>ty ty' Ep Ep' R R' Hv Hv'.
          checkRegime ty Ep (mu inputs) (q inputs) (K_IC inputs) R Hv
            = checkRegime ty' Ep' (mu inputs) (q inputs) (K_IC inputs) R' Hv')"
  by (simp add: calculatePKN_def calculateKGD_def calculateRadial_def checkRegime_def Let_def)

theorem regime_threshold_witness:
  "valid_inputs INITIAL_INPUTS
   \<and> regime (calculatePKN INITIAL_INPUTS) = Toughness
   \<and> regime (calculateKGD INITIAL_INPUTS) = Toughness
   \<and> regime (calculateRadial INITIAL_INPUTS) = Toughness"
proof -
  note v = valid_INITIAL_INPUTS
  have s: "K_IC INITIAL_INPUTS / (mu INITIAL_INPUTS * q INITIAL_INPUTS * 1000000) > 100"
    by (simp add: INITIAL_INPUTS_def)
  from regime_threshold [OF v] v s show ?thesis by simp
qed

subsection \<open>Sensitivity analyzer\<close>

text \<open>
  C7: for every input set and baseline result the analyzer returns exactly eight rows, in
  the order viscosity, rate, minimum stress, leakoff coefficient and, within each, factor
  0.5 then 2; each row re-runs the solver named by the baseline's model type on the input
  with that one parameter multiplied by the factor, and its three percentage fields are
  \<open>(perturbed - baseline) / baseline * 100\<close> of length, average width and net pressure.
  The quotient is the source's own expression; where a baseline field is zero the source
  yields NaN or an infinity, which the number model does not represent.
\<close>

theorem runSensitivity_rows:
  "length (runSensitivity inputs baseResult) = 8
   \<and> runSensitivity inputs baseResult =
     map (\<lambda>(name, newInputs, fac).
            let res = (case mtype baseResult of
                         PKN \<Rightarrow> calculatePKN newInputs
                       | KGD \<Rightarrow> calculateKGD newInputs
                       | RADIAL \<Rightarrow> calculateRadial newInputs)
            in \<lparr>parameter = name, factor = fac,
                L_change = (length_m res - length_m baseResult) / length_m baseResult * 100,
                w_change = (width_avg res - width_avg baseResult) / width_avg baseResult * 100,
                p_change = (p_net res - p_net baseResult) / p_net baseResult * 100\<rparr>)
       [(''mu'', inputs\<lparr>mu := mu inputs * 0.5\<rparr>, 0.5),
        (''mu'', inputs\<lparr>mu := mu inputs * 2\<rparr>, 2),
        (''q'', inputs\<lparr>q := q inputs * 0.5\<rparr>, 0.5),
        (''q'', inputs\<lparr>q := q inputs * 2\<rparr>, 2),
        (''sigma_min'', inputs\<lparr>sigma_min := sigma_min inputs * 0.5\<rparr>, 0.5),
        (''sigma_min'', inputs\<lparr>sigma_min := sigma_min inputs * 2\<rparr>, 2),
        (''CL'', inputs\<lparr>CL := CL inputs * 0.5\<rparr>, 0.5),
        (''CL'', inputs\<lparr>CL := CL inputs * 2\<rparr>, 2)]"
  by (cases "mtype baseResult") (simp_all add: runSensitivity_def Let_def)

subsection \<open>Asymptotic matching\<close>

text \<open>
  In exact arithmetic the extent of the result is the harmonic combination
  \<open>1 / (1 / L_no_leakoff + 1 / L_high_leakoff)\<close> of the solver's two asymptotes at the
  elapsed time, and it is at most the smaller of the two. (In double arithmetic it can
  exceed the smaller one: section \<open>Properties in double arithmetic\<close>.)
\<close>

lemma harmonic_combination_bound_exact:
  assumes "valid_inputs inputs"
  shows
    "length_m (calculatePKN inputs)
       = 1 / (1 / PKN_L_no_leakoff inputs (getEPrime (E inputs) (nu inputs)) (time inputs)
              + 1 / PKN_L_high_leakoff inputs (time inputs))
     \<and> length_m (calculatePKN inputs)
         \<le> min (PKN_L_no_leakoff inputs (getEPrime (E inputs) (nu inputs)) (time inputs))
                (PKN_L_high_leakoff inputs (time inputs))
     \<and> length_m (calculateKGD inputs)
       = 1 / (1 / KGD_L_no_leakoff inputs (getEPrime (E inputs) (nu inputs)) (time inputs)
              + 1 / KGD_L_high_leakoff inputs (time inputs))
     \<and> length_m (calculateKGD inputs)
         \<le> min (KGD_L_no_leakoff inputs (getEPrime (E inputs) (nu inputs)) (time inputs))
                (KGD_L_high_leakoff inputs (time inputs))
     \<and> length_m (calculateRadial inputs)
       = 1 / (1 / Radial_R_no_leakoff inputs (getEPrime (E inputs) (nu inputs)) (time inputs)
              + 1 / Radial_R_high_leakoff inputs (time inputs))
     \<and> length_m (calculateRadial inputs)
         \<le> min (Radial_R_no_leakoff inputs (getEPrime (E inputs) (nu inputs)) (time inputs))
                (Radial_R_high_leakoff inputs (time inputs))"
proof -
  have Ep: "0 < getEPrime (E inputs) (nu inputs)" using assms by (rule valid_Ep_pos)
  have t: "0 < time inputs" using assms by (simp add: valid_inputs_def)
  note hl = high_leakoff_pos [OF assms t]
  have "length_m (calculatePKN inputs)
         \<le> min (PKN_L_no_leakoff inputs (getEPrime (E inputs) (nu inputs)) (time inputs))
                (PKN_L_high_leakoff inputs (time inputs))"
    unfolding length_m_calc sol_L_PKN
    by (rule harmonic_le_min [OF PKN_L_no_leakoff_pos [OF assms Ep t] hl(1)])
  moreover have "length_m (calculateKGD inputs)
         \<le> min (KGD_L_no_leakoff inputs (getEPrime (E inputs) (nu inputs)) (time inputs))
                (KGD_L_high_leakoff inputs (time inputs))"
    unfolding length_m_calc sol_L_KGD
    by (rule harmonic_le_min [OF KGD_L_no_leakoff_pos [OF assms Ep t] hl(2)])
  moreover have "length_m (calculateRadial inputs)
         \<le> min (Radial_R_no_leakoff inputs (getEPrime (E inputs) (nu inputs)) (time inputs))
                (Radial_R_high_leakoff inputs (time inputs))"
    unfolding length_m_calc sol_L_Radial
    by (rule harmonic_le_min [OF Radial_R_no_leakoff_pos [OF assms Ep t] hl(3)])
  ultimately show ?thesis
    by (simp only: length_m_calc sol_L_PKN sol_L_KGD sol_L_Radial simp_thms)
qed

lemma harmonic_combination_bound_exact_instance:
  "valid_inputs INITIAL_INPUTS
   \<and> length_m (calculatePKN INITIAL_INPUTS)
       \<le> min (PKN_L_no_leakoff INITIAL_INPUTS (getEPrime (E INITIAL_INPUTS) (nu INITIAL_INPUTS))
                (time INITIAL_INPUTS))
              (PKN_L_high_leakoff INITIAL_INPUTS (time INITIAL_INPUTS))
   \<and> length_m (calculateKGD INITIAL_INPUTS)
       \<le> min (KGD_L_no_leakoff INITIAL_INPUTS (getEPrime (E INITIAL_INPUTS) (nu INITIAL_INPUTS))
                (time INITIAL_INPUTS))
              (KGD_L_high_leakoff INITIAL_INPUTS (time INITIAL_INPUTS))
   \<and> length_m (calculateRadial INITIAL_INPUTS)
       \<le> min (Radial_R_no_leakoff INITIAL_INPUTS (getEPrime (E INITIAL_INPUTS) (nu INITIAL_INPUTS))
                (time INITIAL_INPUTS))
              (Radial_R_high_leakoff INITIAL_INPUTS (time INITIAL_INPUTS))"
proof -
  note v = valid_INITIAL_INPUTS
  from harmonic_combination_bound_exact [OF v] v show ?thesis by blast
qed

subsection \<open>Volume balance\<close>

text \<open>
  In exact arithmetic the efficiency of the result lies between 0 and 1 on every valid
  input. (In double arithmetic it can be NaN.)
\<close>

lemma efficiency_in_unit_interval_exact:
  assumes "valid_inputs inputs"
  shows "0 \<le> efficiency (calculatePKN inputs) \<and> efficiency (calculatePKN inputs) \<le> 1
    \<and> 0 \<le> efficiency (calculateKGD inputs) \<and> efficiency (calculateKGD inputs) \<le> 1
    \<and> 0 \<le> efficiency (calculateRadial inputs) \<and> efficiency (calculateRadial inputs) \<le> 1"
proof -
  have vi: "0 < q inputs * time inputs" and h: "0 < H inputs"
    using assms by (simp_all add: valid_inputs_def)
  note w = width_avg_nonneg [OF assms] and l = length_m_pos [OF assms]
  have "0 \<le> 2 * length_m (calculatePKN inputs) * H inputs * width_avg (calculatePKN inputs)"
    using w(1) l(1) h by simp
  moreover have "0 \<le> 2 * length_m (calculateKGD inputs) * H inputs * width_avg (calculateKGD inputs)"
    using w(2) l(2) h by simp
  moreover have "0 \<le> pi * (length_m (calculateRadial inputs))\<^sup>2 * width_avg (calculateRadial inputs)"
    using w(3) by simp
  ultimately show ?thesis
    unfolding result_fields_PKN(4) result_fields_KGD(4) result_fields_Radial(4)
    using vi by (simp add: min_one_quotient_range)
qed

lemma efficiency_in_unit_interval_exact_instance:
  "valid_inputs INITIAL_INPUTS
   \<and> 0 \<le> efficiency (calculatePKN INITIAL_INPUTS) \<and> efficiency (calculatePKN INITIAL_INPUTS) \<le> 1
   \<and> 0 \<le> efficiency (calculateKGD INITIAL_INPUTS) \<and> efficiency (calculateKGD INITIAL_INPUTS) \<le> 1
   \<and> 0 \<le> efficiency (calculateRadial INITIAL_INPUTS) \<and> efficiency (calculateRadial INITIAL_INPUTS) \<le> 1"
proof -
  note v = valid_INITIAL_INPUTS
  from efficiency_in_unit_interval_exact [OF v] v show ?thesis by blast
qed

text \<open>
  C4: for every valid input and each model \<open>m\<close>, the leaked-off volume of the result is
  the injected volume \<open>q * time\<close> minus the contained volume, with no clamp; whenever the
  contained volume exceeds the injected volume, the efficiency is 1 and the leaked-off
  volume is negative. The contained volume is \<open>2 * L * H * w_avg\<close> for PKN and KGD and
  \<open>pi * L\<^sup>2 * w_avg\<close> for Radial. The contained volume does exceed the injected one
  for PKN and Radial at \<open>unit_inputs\<close>.
\<close>

theorem leakoff_unclamped:
  assumes "valid_inputs inputs"
  shows
    "(let r = (case m of PKN \<Rightarrow> calculatePKN inputs | KGD \<Rightarrow> calculateKGD inputs
               | RADIAL \<Rightarrow> calculateRadial inputs);
          injected = q inputs * time inputs;
          contained = (case m of RADIAL \<Rightarrow> pi * (length_m r)\<^sup>2 * width_avg r
                       | _ \<Rightarrow> 2 * length_m r * H inputs * width_avg r)
      in volume_injected r = injected \<and> volume_leakoff r = injected - contained
         \<and> (injected < contained \<longrightarrow> efficiency r = 1 \<and> volume_leakoff r < 0))"
proof -
  have vi: "0 < q inputs * time inputs"
    using assms by (simp add: valid_inputs_def)
  have clamp: "min 1 (c / (q inputs * time inputs)) = 1" if "q inputs * time inputs < c" for c
    using that vi by (simp add: min_def)
  show ?thesis
  proof (cases m)
    case PKN
    then show ?thesis
      unfolding Let_def by (simp add: result_fields_PKN(2,3,4) clamp)
  next
    case KGD
    then show ?thesis
      unfolding Let_def by (simp add: result_fields_KGD(2,3,4) clamp)
  next
    case RADIAL
    then show ?thesis
      unfolding Let_def by (simp add: result_fields_Radial(2,3,4) clamp)
  qed
qed

theorem leakoff_unclamped_witness:
  "valid_inputs unit_inputs
   \<and> q unit_inputs * time unit_inputs
       < 2 * length_m (calculatePKN unit_inputs) * H unit_inputs * width_avg (calculatePKN unit_inputs)
   \<and> efficiency (calculatePKN unit_inputs) = 1
   \<and> volume_leakoff (calculatePKN unit_inputs) < 0
   \<and> q unit_inputs * time unit_inputs
       < pi * (length_m (calculateRadial unit_inputs))\<^sup>2 * width_avg (calculateRadial unit_inputs)
   \<and> efficiency (calculateRadial unit_inputs) = 1
   \<and> volume_leakoff (calculateRadial unit_inputs) < 0"
proof -
  note v = valid_unit_inputs
  from leakoff_unclamped [OF v, of PKN] PKN_unit_contained
  have "efficiency (calculatePKN unit_inputs) = 1 \<and> volume_leakoff (calculatePKN unit_inputs) < 0"
    by (simp add: Let_def)
  moreover from leakoff_unclamped [OF v, of RADIAL] Radial_unit_contained
  have "efficiency (calculateRadial unit_inputs) = 1
        \<and> volume_leakoff (calculateRadial unit_inputs) < 0"
    by (simp add: Let_def)
  ultimately show ?thesis
    using v PKN_unit_contained Radial_unit_contained by blast
qed

text \<open>
  On a valid input the KGD contained volume stays below the injected volume (it is at
  most \<open>0.66 * pi * 0.48 powr 1.5\<close> of it), so the efficiency clamp of the KGD
  solver never fires there and its leaked-off volume is positive.
\<close>

lemma KGD_contained_below_injected:
  assumes "valid_inputs inputs"
  shows "2 * length_m (calculateKGD inputs) * H inputs * width_avg (calculateKGD inputs)
           < q inputs * time inputs"
proof -
  define Ep where "Ep = getEPrime (E inputs) (nu inputs)"
  define T where "T = time inputs"
  define A where "A = Ep * (q inputs) ^ 3 / (mu inputs * (H inputs) ^ 3)"
  define B where "B = mu inputs * q inputs / (Ep * H inputs)"
  define Ln where "Ln = KGD_L_no_leakoff inputs Ep T"
  define l where "l = length_m (calculateKGD inputs)"
  define X where "X = l * (B * l\<^sup>2) powr (1/4)"
  define Xn where "Xn = Ln * (B * Ln\<^sup>2) powr (1/4)"
  have Ep: "0 < Ep" unfolding Ep_def using assms by (rule valid_Ep_pos)
  have v: "0 < q inputs" "0 < mu inputs" "0 < H inputs" "0 < T"
    using assms by (simp_all add: valid_inputs_def T_def)
  have A: "0 < A" and B: "0 < B" unfolding A_def B_def using Ep v by simp_all
  have Ln: "Ln = 0.48 * A powr (1/6) * T powr (2/3)"
    unfolding Ln_def KGD_L_no_leakoff_def A_def by (simp add: Math_pow_3 Math_pow_frac)
  have Lnpos: "0 < Ln"
    unfolding Ln_def by (rule KGD_L_no_leakoff_pos [OF assms Ep v(4)])
  have lpos: "0 < l" unfolding l_def using assms by (rule length_m_pos(2))
  have l: "l = sol_L (solveKGD inputs Ep T)"
    unfolding l_def length_m_calc Ep_def T_def ..
  have lle: "l \<le> Ln"
    unfolding l sol_L_KGD Ln_def
    by (rule harmonic_le_left [OF KGD_L_no_leakoff_pos [OF assms Ep v(4)]
          high_leakoff_pos(2) [OF assms v(4)]])
  have "width_avg (calculateKGD inputs) = (pi / 4) * (1.32 * (B * l\<^sup>2) powr (1/4))"
    unfolding result_fields_KGD(1) Ep_def [symmetric] T_def [symmetric] sol_w_KGD l B_def
    by (simp only: mult_ac times_divide_eq_left times_divide_eq_right)
  then have contained: "2 * l * H inputs * width_avg (calculateKGD inputs)
      = 0.66 * pi * H inputs * X"
    unfolding X_def by simp
  have "B * l\<^sup>2 \<le> B * Ln\<^sup>2"
    using lle lpos B by (intro mult_left_mono power_mono) simp_all
  then have "(B * l\<^sup>2) powr (1/4) \<le> (B * Ln\<^sup>2) powr (1/4)"
    using B by (intro powr_mono2) simp_all
  then have XXn: "X \<le> Xn"
    unfolding X_def Xn_def using lle lpos by (intro mult_mono) simp_all
  have "0 < B * Ln\<^sup>2" using B Lnpos by simp
  then have "((B * Ln\<^sup>2) powr (1/4)) ^ 4 = B * Ln\<^sup>2"
    by (simp add: powr_power_nat)
  then have "Xn ^ 4 = B * Ln ^ 6"
    unfolding Xn_def by (rule fourth_power_product)
  also have "Ln ^ 6 = 0.48 ^ 6 * A * T ^ 4"
    unfolding Ln by (rule KGD_no_leakoff_sixth_power [OF sixth_powers [OF A v(4)]])
  finally have Xn4: "Xn ^ 4 = B * (0.48 ^ 6 * A * T ^ 4)" .
  have BA: "B * A = (q inputs) ^ 4 / (H inputs) ^ 4"
    unfolding A_def B_def by (rule KGD_groups_product [OF Ep v(1,2,3)])
  have "(0.66 * pi * H inputs * Xn) ^ 4 = (0.66 ^ 4 * 0.48 ^ 6 * pi ^ 4) * (q inputs * T) ^ 4"
    by (rule KGD_volume_fourth_power [OF Xn4 BA v(3)])
  also have "\<dots> < 1 * (q inputs * T) ^ 4"
  proof (rule mult_strict_right_mono)
    have "pi ^ 4 \<le> 4 ^ 4" using pi_less_4 by (intro power_mono) simp_all
    then have "0.66 ^ 4 * 0.48 ^ 6 * pi ^ 4 \<le> 0.66 ^ 4 * 0.48 ^ 6 * (4::real) ^ 4"
      by (intro mult_left_mono) simp_all
    also note KGD_volume_constant
    finally show "0.66 ^ 4 * 0.48 ^ 6 * pi ^ 4 < 1" .
    show "0 < (q inputs * T) ^ 4" using v by simp
  qed
  finally have "(0.66 * pi * H inputs * Xn) ^ 4 < (q inputs * T) ^ 4" by simp
  then have "0.66 * pi * H inputs * Xn < q inputs * T"
    by (rule power_less_imp_less_base) (use v in simp)
  moreover have "0.66 * pi * H inputs * X \<le> 0.66 * pi * H inputs * Xn"
    using XXn v by (intro mult_left_mono) simp_all
  ultimately show ?thesis
    using contained unfolding l_def T_def by linarith
qed

subsection \<open>Time history\<close>

text \<open>
  In exact arithmetic the time history has 50 records, at the times \<open>i * T / 50\<close> for
  \<open>i = 1, ..., 50\<close>; the times are strictly ascending and the length field is
  non-decreasing along the sequence. (In double arithmetic the times are those of
  \<^verbatim>\<open>(T / 50) * i\<close>, which differ.)
\<close>

lemma history_monotone_exact:
  assumes "valid_inputs inputs" "compute m inputs = Inr r"
  shows "length (timeSeries r) = 50
    \<and> (\<forall>i<50. ts_time (timeSeries r ! i) = real (i + 1) * time inputs / 50)
    \<and> sorted_wrt (<) (map ts_time (timeSeries r))
    \<and> sorted (map ts_length (timeSeries r))"
proof -
  have Ep: "0 < getEPrime (E inputs) (nu inputs)" using assms(1) by (rule valid_Ep_pos)
  have t: "0 < time inputs" using assms(1) by (simp add: valid_inputs_def)
  have shape: "length (generateHistory (time inputs) f) = 50
    \<and> (\<forall>i<50. ts_time (generateHistory (time inputs) f ! i) = real (i + 1) * time inputs / 50)
    \<and> sorted_wrt (<) (map ts_time (generateHistory (time inputs) f))" for f
    using generateHistory_times_ascending [OF t, of f]
    by (simp add: generateHistory_shape(1,2))
  from assms(2) show ?thesis
  proof (cases rule: compute_cases)
    case 1
    have "sorted (map ts_length (timeSeries r))"
      unfolding 1 timeSeries_calc
      by (rule generateHistory_length_sorted [OF t]) (rule sol_L_mono(1) [OF assms(1) Ep])
    then show ?thesis using shape unfolding 1 timeSeries_calc by blast
  next
    case 2
    have "sorted (map ts_length (timeSeries r))"
      unfolding 2 timeSeries_calc
      by (rule generateHistory_length_sorted [OF t]) (rule sol_L_mono(2) [OF assms(1) Ep])
    then show ?thesis using shape unfolding 2 timeSeries_calc by blast
  next
    case 3
    have "sorted (map ts_length (timeSeries r))"
      unfolding 3 timeSeries_calc
      by (rule generateHistory_length_sorted [OF t]) (rule sol_L_mono(3) [OF assms(1) Ep])
    then show ?thesis using shape unfolding 3 timeSeries_calc by blast
  qed
qed

lemma history_monotone_exact_instance:
  "valid_inputs INITIAL_INPUTS
   \<and> compute PKN INITIAL_INPUTS = Inr (calculatePKN INITIAL_INPUTS)
   \<and> length (timeSeries (calculatePKN INITIAL_INPUTS)) = 50
   \<and> ts_time (timeSeries (calculatePKN INITIAL_INPUTS) ! 0) = 36
   \<and> ts_time (timeSeries (calculatePKN INITIAL_INPUTS) ! 49) = 1800
   \<and> sorted_wrt (<) (map ts_time (timeSeries (calculatePKN INITIAL_INPUTS)))
   \<and> sorted (map ts_length (timeSeries (calculatePKN INITIAL_INPUTS)))"
proof -
  note v = valid_INITIAL_INPUTS
  have c: "compute PKN INITIAL_INPUTS = Inr (calculatePKN INITIAL_INPUTS)"
    by (simp add: compute_def)
  have t: "time INITIAL_INPUTS = 1800" by (simp add: INITIAL_INPUTS_def)
  from history_monotone_exact [OF v c] have
    h: "length (timeSeries (calculatePKN INITIAL_INPUTS)) = 50"
      "\<forall>i<50. ts_time (timeSeries (calculatePKN INITIAL_INPUTS) ! i) = real (i + 1) * 1800 / 50"
      "sorted_wrt (<) (map ts_time (timeSeries (calculatePKN INITIAL_INPUTS)))"
      "sorted (map ts_length (timeSeries (calculatePKN INITIAL_INPUTS)))"
    unfolding t by blast+
  from h(2) [rule_format, of 0] h(2) [rule_format, of 49]
  have "ts_time (timeSeries (calculatePKN INITIAL_INPUTS) ! 0) = 36"
    "ts_time (timeSeries (calculatePKN INITIAL_INPUTS) ! 49) = 1800"
    by simp_all
  with v c h(1,3,4) show ?thesis by blast
qed

text \<open>
  In exact arithmetic the last record of the time history has the elapsed time of the
  input as its time, and its length, width and pressure are the length, maximum width
  and net pressure of the result. (In double arithmetic the last sample can be taken at
  another time.)
\<close>

lemma history_last_is_final_exact:
  assumes "valid_inputs inputs" "compute m inputs = Inr r"
  shows "timeSeries r \<noteq> []
    \<and> ts_time (last (timeSeries r)) = time inputs
    \<and> ts_length (last (timeSeries r)) = length_m r
    \<and> ts_width (last (timeSeries r)) = width_max r
    \<and> ts_pressure (last (timeSeries r)) = p_net r"
proof -
  have ne: "generateHistory (time inputs) f \<noteq> []" for f
    using generateHistory_shape(1) [of "time inputs" f] by auto
  from assms(2) show ?thesis
  proof (cases rule: compute_cases)
    case 1
    then show ?thesis
      by (simp add: timeSeries_calc generateHistory_last ne length_m_calc headline_calc)
  next
    case 2
    then show ?thesis
      by (simp add: timeSeries_calc generateHistory_last ne length_m_calc headline_calc)
  next
    case 3
    then show ?thesis
      by (simp add: timeSeries_calc generateHistory_last ne length_m_calc headline_calc)
  qed
qed

lemma history_last_is_final_exact_instance:
  "valid_inputs INITIAL_INPUTS
   \<and> compute RADIAL INITIAL_INPUTS = Inr (calculateRadial INITIAL_INPUTS)
   \<and> timeSeries (calculateRadial INITIAL_INPUTS) \<noteq> []
   \<and> ts_time (last (timeSeries (calculateRadial INITIAL_INPUTS))) = 1800
   \<and> ts_length (last (timeSeries (calculateRadial INITIAL_INPUTS)))
       = length_m (calculateRadial INITIAL_INPUTS)
   \<and> ts_width (last (timeSeries (calculateRadial INITIAL_INPUTS)))
       = width_max (calculateRadial INITIAL_INPUTS)
   \<and> ts_pressure (last (timeSeries (calculateRadial INITIAL_INPUTS)))
       = p_net (calculateRadial INITIAL_INPUTS)"
proof -
  note v = valid_INITIAL_INPUTS
  have c: "compute RADIAL INITIAL_INPUTS = Inr (calculateRadial INITIAL_INPUTS)"
    by (simp add: compute_def)
  have t: "time INITIAL_INPUTS = 1800" by (simp add: INITIAL_INPUTS_def)
  from history_last_is_final_exact [OF v c] v c show ?thesis unfolding t by blast
qed

subsection \<open>Width profile\<close>

text \<open>
  In exact arithmetic, for every final extent \<open>L > 0\<close>, maximum width and positive shape
  exponent, the profile generator returns 51 points, at the positions \<open>i * L / 50\<close> for
  \<open>i = 0, ..., 50\<close>, strictly ascending from 0 to \<open>L\<close>; the width at each point is
  \<open>w_max * (1 - x / L)\<close> to the power of the exponent, so the first point has width
  \<open>w_max\<close> and the last has width 0. (In double arithmetic the last width can be NaN.)
\<close>

lemma profile_shape_exact:
  assumes "0 < Lv" "0 < e"
  shows "length (generateProfile Lv w e) = 51
    \<and> (\<forall>i\<le>50. pp_position (generateProfile Lv w e ! i) = real i * Lv / 50
          \<and> pp_width (generateProfile Lv w e ! i)
              = w * (1 - pp_position (generateProfile Lv w e ! i) / Lv) powr e)
    \<and> sorted_wrt (<) (map pp_position (generateProfile Lv w e))
    \<and> pp_position (generateProfile Lv w e ! 0) = 0
    \<and> pp_position (generateProfile Lv w e ! 50) = Lv
    \<and> pp_width (generateProfile Lv w e ! 0) = w
    \<and> pp_width (generateProfile Lv w e ! 50) = 0
    \<and> profile (calculatePKN inputs)
        = generateProfile (length_m (calculatePKN inputs)) (width_max (calculatePKN inputs)) 0.25
    \<and> profile (calculateKGD inputs)
        = generateProfile (length_m (calculateKGD inputs)) (width_max (calculateKGD inputs)) 0.5
    \<and> profile (calculateRadial inputs)
        = generateProfile (length_m (calculateRadial inputs)) (width_max (calculateRadial inputs)) 0.5"
proof -
  have len: "length (generateProfile Lv w e) = 51"
    by (simp add: generateProfile_eq)
  have pts: "pp_position (generateProfile Lv w e ! i) = real i * Lv / 50
      \<and> pp_width (generateProfile Lv w e ! i)
          = w * (1 - pp_position (generateProfile Lv w e ! i) / Lv) powr e" if "i \<le> 50" for i
  proof -
    have "real i / 50 \<le> 1" using that by simp
    then have "0 \<le> 1 - Lv / 50 * real i / Lv" using assms(1) by simp
    then show ?thesis
      using that assms(2) by (simp add: generateProfile_nth Math_pow_nonneg_base)
  qed
  have asc: "sorted_wrt (<) (map pp_position (generateProfile Lv w e))"
    unfolding generateProfile_eq map_map
    by (rule sorted_wrt_map_upt) (use assms(1) in simp)
  have ends: "pp_position (generateProfile Lv w e ! 0) = 0"
    "pp_position (generateProfile Lv w e ! 50) = Lv"
    "pp_width (generateProfile Lv w e ! 0) = w"
    "pp_width (generateProfile Lv w e ! 50) = 0"
    using assms by (simp_all add: generateProfile_nth Math_pow_nonneg_base)
  from pts have all: "\<forall>i\<le>50. pp_position (generateProfile Lv w e ! i) = real i * Lv / 50
          \<and> pp_width (generateProfile Lv w e ! i)
              = w * (1 - pp_position (generateProfile Lv w e ! i) / Lv) powr e"
    by blast
  show ?thesis
    using len all asc ends profile_calc [of inputs] by blast
qed

lemma profile_shape_exact_instance:
  "(0::real) < 2 \<and> (0::real) < 0.25
   \<and> length (generateProfile 2 3 0.25) = 51
   \<and> pp_position (generateProfile 2 3 0.25 ! 25) = 1
   \<and> pp_width (generateProfile 2 3 0.25 ! 25) = 3 * (1 / 2) powr 0.25
   \<and> sorted_wrt (<) (map pp_position (generateProfile 2 3 0.25))
   \<and> pp_position (generateProfile 2 3 0.25 ! 0) = 0
   \<and> pp_position (generateProfile 2 3 0.25 ! 50) = 2
   \<and> pp_width (generateProfile 2 3 0.25 ! 0) = 3
   \<and> pp_width (generateProfile 2 3 0.25 ! 50) = 0"
proof -
  have h: "(0::real) < 2" "(0::real) < 0.25" by simp_all
  note p = profile_shape_exact [OF h, of 3]
  from p have a: "\<forall>i\<le>50. pp_position (generateProfile 2 3 0.25 ! i) = real i * 2 / 50
          \<and> pp_width (generateProfile 2 3 0.25 ! i)
              = 3 * (1 - pp_position (generateProfile 2 3 0.25 ! i) / 2) powr 0.25"
    by blast
  from a [rule_format, of 25] have "pp_position (generateProfile 2 3 0.25 ! 25) = 1"
    "pp_width (generateProfile 2 3 0.25 ! 25) = 3 * (1 / 2) powr 0.25"
    by simp_all
  with p h show ?thesis by blast
qed

section \<open>Properties in double arithmetic\<close>

subsection \<open>Rounding\<close>

text \<open>Rounding to the nearest integer, ties to even, and the double nearest to a real
  whose binade is known.\<close>

lemma pos_of_ge_inverse_power: "1 / 2 ^ n \<le> x \<Longrightarrow> 0 < (x::real)"
  by (rule less_le_trans [of _ "1 / 2 ^ n"]) simp_all

lemma round_even_of_int [simp]: "round_even (of_int m) = m"
  by (simp add: round_even_def)

lemma round_even_error: "\<bar>of_int (round_even z) - z\<bar> \<le> 1/2"
  unfolding round_even_def Let_def by (auto; linarith)


lemma round_even_ge: "of_int N \<le> z \<Longrightarrow> N \<le> round_even z"
proof -
  assume "of_int N \<le> z"
  then have "N \<le> \<lfloor>z\<rfloor>" by (simp add: le_floor_iff)
  then show ?thesis unfolding round_even_def Let_def by auto
qed

lemma floor_log2_eq:
  fixes x :: real
  assumes "2 powr of_int k \<le> x" "x < 2 powr (of_int k + 1)"
  shows "\<lfloor>log 2 x\<rfloor> = k"
proof -
  have pos: "0 < x" by (rule less_le_trans [OF _ assms(1)]) simp
  have "of_int k \<le> log 2 x" using assms(1) pos by (simp add: le_log_iff)
  moreover have "log 2 x < of_int k + 1" using assms(2) pos by (simp add: log_less_iff)
  ultimately show ?thesis by linarith
qed

lemma fl_eval:
  fixes x c :: real
  assumes c: "c = 2 powr (52 - of_int k)" and k: "- 1022 \<le> k"
    and lo: "2 ^ 52 \<le> \<bar>x\<bar> * c" and hi: "\<bar>x\<bar> * c < 2 ^ 53"
  shows "fl x = of_int (round_even (x * c)) / c"
proof -
  have cpos: "0 < c" using c by simp
  have x0: "x \<noteq> 0" using lo by auto
  have "2 powr of_int k = 2 powr 52 / c" unfolding c by (simp add: powr_diff)
  also have "\<dots> \<le> \<bar>x\<bar>" using lo cpos by (simp add: field_simps)
  finally have A: "2 powr of_int k \<le> \<bar>x\<bar>" .
  have "\<bar>x\<bar> < 2 ^ 53 / c" using hi cpos by (simp add: field_simps)
  also have "\<dots> = 2 powr (of_int k + 1)" unfolding c
    by (simp add: powr_diff powr_add)
  finally have B: "\<bar>x\<bar> < 2 powr (of_int k + 1)" .
  have e: "\<lfloor>log 2 \<bar>x\<bar>\<rfloor> = k" using A B by (rule floor_log2_eq)
  have "2 powr (of_int k - 52) = 1 / c" unfolding c by (simp add: powr_diff)
  then show ?thesis using x0 e c k by (simp add: fl_def Let_def max_def)
qed

lemma fl_eval_up:
  fixes x :: real
  assumes "n \<le> 1074" "2 ^ 52 \<le> \<bar>x\<bar> * 2 ^ n" "\<bar>x\<bar> * 2 ^ n < 2 ^ 53"
  shows "fl x = of_int (round_even (x * 2 ^ n)) / 2 ^ n"
proof -
  have "(2::real) ^ n = 2 powr (52 - of_int (52 - int n))"
    by (simp add: powr_realpow)
  moreover have "- 1022 \<le> 52 - int n" using assms(1) by simp
  ultimately show ?thesis using assms(2,3) by (rule fl_eval)
qed

lemma fl_eval_down:
  fixes x :: real
  assumes "2 ^ 52 \<le> \<bar>x\<bar> / 2 ^ n" "\<bar>x\<bar> / 2 ^ n < 2 ^ 53"
  shows "fl x = of_int (round_even (x / 2 ^ n)) * 2 ^ n"
proof -
  have "1 / (2::real) ^ n = 2 powr (52 - of_int (52 + int n))"
    by (simp add: powr_minus powr_realpow field_simps)
  moreover have "- 1022 \<le> 52 + int n" by simp
  moreover have "2 ^ 52 \<le> \<bar>x\<bar> * (1 / 2 ^ n)" "\<bar>x\<bar> * (1 / 2 ^ n) < 2 ^ 53"
    using assms by simp_all
  ultimately have "fl x = of_int (round_even (x * (1 / 2 ^ n))) / (1 / 2 ^ n)"
    by (rule fl_eval)
  then show ?thesis by simp
qed

lemma rnd_Num: "\<bar>fl x\<bar> < 2 ^ 1024 \<Longrightarrow> rnd x = Num (fl x)"
proof -
  assume "\<bar>fl x\<bar> < 2 ^ 1024"
  then have "\<not> 2 ^ 1024 \<le> fl x" "\<not> fl x \<le> - (2 ^ 1024)" by linarith+
  then show ?thesis by (simp only: rnd_def Let_def if_False)
qed

lemma fl_7_50: "fl (7 / 50) = 1261007895663739 / 9007199254740992"
  by (subst fl_eval_up [where n = 55]) (simp_all add: round_even_def Let_def)


lemma fl_7_50_50: "fl (1261007895663739 / 9007199254740992 * 50) = 7881299347898369 / 1125899906842624"
  by (subst fl_eval_up [where n = 50]) (simp_all add: round_even_def Let_def)

lemma fl_x_norm_7: "fl (7881299347898369 / 1125899906842624 / 7) = 4503599627370497 / 4503599627370496"
  by (subst fl_eval_up [where n = 52]) (simp_all add: round_even_def Let_def)

lemma fl_tip_7: "fl (1 - 4503599627370497 / 4503599627370496) = - (1 / 4503599627370496)"
  by (subst fl_eval_up [where n = 104]) (simp_all add: round_even_def Let_def)

lemma fl_quarter: "fl 0.25 = 1 / 4" "fl 0.5 = 1 / 2"
  by (subst fl_eval_up [where n = 54], simp_all add: round_even_def Let_def,
      subst fl_eval_up [where n = 53], simp_all add: round_even_def Let_def)

lemma quarter_not_Int: "(1 / 4 :: real) \<notin> \<int>" "(1 / 2 :: real) \<notin> \<int>"
  using frac_not_Int [of "1/4"] frac_not_Int [of "1/2"] by simp_all

subsection \<open>The sampling loops\<close>

lemma rnd_value: "fl x = v \<Longrightarrow> \<bar>v\<bar> < 2 ^ 1024 \<Longrightarrow> rnd x = Num v"
  using rnd_Num [of x] by simp

lemma generateHistory_loop_d_eq:
  "i \<le> Suc steps \<Longrightarrow>
   generateHistory_loop_d totalTime calcAtTime steps i history =
     history @ map (\<lambda>k. let t = jmul (jdiv totalTime (Num (real steps))) (Num (real k))
                        in \<lparr>ts_time_d = t, ts_length_d = sol_L_d (calcAtTime t),
                            ts_width_d = sol_w_d (calcAtTime t),
                            ts_pressure_d = sol_p_d (calcAtTime t)\<rparr>)
                 [i..<Suc steps]"
proof (induction totalTime calcAtTime steps i history rule: generateHistory_loop_d.induct)
  case (1 totalTime calcAtTime steps i history)
  show ?case
  proof (cases "i \<le> steps")
    case True
    then have "[i..<Suc steps] = i # [Suc i..<Suc steps]"
      by (simp add: upt_conv_Cons)
    with True "1.IH" [OF True refl refl] show ?thesis
      by (subst generateHistory_loop_d.simps) (simp add: Let_def)
  next
    case False
    with "1.prems" have "i = Suc steps" by simp
    then show ?thesis
      by (subst generateHistory_loop_d.simps) simp
  qed
qed

lemma generateHistory_d_nth:
  assumes "k < 50"
  shows "generateHistory_d totalTime calcAtTime ! k =
     (let t = jmul (jdiv totalTime (Num 50)) (Num (real (Suc k)))
      in \<lparr>ts_time_d = t, ts_length_d = sol_L_d (calcAtTime t),
          ts_width_d = sol_w_d (calcAtTime t), ts_pressure_d = sol_p_d (calcAtTime t)\<rparr>)"
  unfolding generateHistory_d_def
  using assms by (subst generateHistory_loop_d_eq) (simp_all add: Let_def)

lemma generateHistory_d_length: "length (generateHistory_d totalTime calcAtTime) = 50"
  unfolding generateHistory_d_def by (subst generateHistory_loop_d_eq) simp_all

lemma generateHistory_d_last:
  "last (generateHistory_d totalTime calcAtTime) = generateHistory_d totalTime calcAtTime ! 49"
  by (simp add: last_conv_nth generateHistory_d_length flip: length_0_conv)

lemma generateProfile_loop_d_eq:
  "i \<le> Suc points \<Longrightarrow>
   generateProfile_loop_d Lv w_max shapeExponent points i prof =
     prof @ map (\<lambda>k. let x = jmul (jdiv Lv (Num (real points))) (Num (real k))
                     in \<lparr>pp_position_d = x,
                         pp_width_d = jmul w_max (jpow (jsub (Num 1) (jdiv x Lv)) shapeExponent)\<rparr>)
              [i..<Suc points]"
proof (induction Lv w_max shapeExponent points i prof rule: generateProfile_loop_d.induct)
  case (1 Lv w_max shapeExponent points i prof)
  show ?case
  proof (cases "i \<le> points")
    case True
    then have "[i..<Suc points] = i # [Suc i..<Suc points]"
      by (simp add: upt_conv_Cons)
    with True "1.IH" [OF True refl refl refl] show ?thesis
      by (subst generateProfile_loop_d.simps) (simp add: Let_def)
  next
    case False
    with "1.prems" have "i = Suc points" by simp
    then show ?thesis
      by (subst generateProfile_loop_d.simps) simp
  qed
qed

lemma generateProfile_d_nth:
  assumes "k \<le> 50"
  shows "generateProfile_d Lv w_max shapeExponent ! k =
     (let x = jmul (jdiv Lv (Num 50)) (Num (real k))
      in \<lparr>pp_position_d = x,
          pp_width_d = jmul w_max (jpow (jsub (Num 1) (jdiv x Lv)) shapeExponent)\<rparr>)"
  unfolding generateProfile_d_def
  using assms by (subst generateProfile_loop_d_eq) (simp_all add: Let_def)

lemma generateProfile_d_length: "length (generateProfile_d Lv w_max shapeExponent) = 51"
  unfolding generateProfile_d_def by (subst generateProfile_loop_d_eq) simp_all

text \<open>The sampling grid at 7.\<close>

lemma grid_step_7: "jdiv (Num 7) (Num 50) = Num (1261007895663739 / 9007199254740992)"
proof -
  have "rnd (7 / 50) = Num (1261007895663739 / 9007199254740992)"
    by (rule rnd_value [OF fl_7_50]) simp
  then show ?thesis by (simp only: jdiv.simps) simp
qed


lemma grid_7_50:
  "jmul (jdiv (Num 7) (Num 50)) (Num 50) = Num (7881299347898369 / 1125899906842624)"
  unfolding grid_step_7 jmul.simps by (rule rnd_value [OF fl_7_50_50]) simp

lemma tip_base_7:
  "jsub (Num 1) (jdiv (Num (7881299347898369 / 1125899906842624)) (Num 7))
     = Num (- (1 / 4503599627370496))"
proof -
  have "rnd (7881299347898369 / 1125899906842624 / 7) = Num (4503599627370497 / 4503599627370496)"
    by (rule rnd_value [OF fl_x_norm_7]) simp
  then have "jdiv (Num (7881299347898369 / 1125899906842624)) (Num 7)
      = Num (4503599627370497 / 4503599627370496)"
    by (simp only: jdiv.simps) simp
  moreover have "rnd (1 + - (4503599627370497 / 4503599627370496)) = Num (- (1 / 4503599627370496))"
    using rnd_value [OF fl_tip_7] by simp
  ultimately show ?thesis
    by (simp only: jsub_def jneg.simps jadd.simps)
qed

lemma rnd_quarter: "rnd 0.25 = Num (1 / 4)" "rnd 0.5 = Num (1 / 2)"
  using rnd_value [OF fl_quarter(1)] rnd_value [OF fl_quarter(2)] by simp_all

lemma jmul_NaN_right [simp]: "jmul x NaN = NaN"
  by (cases x) simp_all

lemma tip_pow_NaN:
  "jpow (Num (- (1 / 4503599627370496))) (rnd 0.25) = NaN"
  "jpow (Num (- (1 / 4503599627370496))) (rnd 0.5) = NaN"
  unfolding rnd_quarter using quarter_not_Int by simp_all

lemma timeSeries_d_calc:
  "timeSeries_d (calculatePKN_d inputs)
     = generateHistory_d (Num (time inputs))
         (solvePKN_d inputs (getEPrime_d (Num (E inputs)) (Num (nu inputs))))"
  "timeSeries_d (calculateKGD_d inputs)
     = generateHistory_d (Num (time inputs))
         (solveKGD_d inputs (getEPrime_d (Num (E inputs)) (Num (nu inputs))))"
  "timeSeries_d (calculateRadial_d inputs)
     = generateHistory_d (Num (time inputs))
         (solveRadial_d inputs (getEPrime_d (Num (E inputs)) (Num (nu inputs))))"
  by (simp_all add: calculatePKN_d_def calculateKGD_d_def calculateRadial_d_def Let_def)

lemma length_d_calc:
  "length_d (calculatePKN_d inputs)
     = sol_L_d (solvePKN_d inputs (getEPrime_d (Num (E inputs)) (Num (nu inputs))) (Num (time inputs)))"
  "length_d (calculateKGD_d inputs)
     = sol_L_d (solveKGD_d inputs (getEPrime_d (Num (E inputs)) (Num (nu inputs))) (Num (time inputs)))"
  "length_d (calculateRadial_d inputs)
     = sol_L_d (solveRadial_d inputs (getEPrime_d (Num (E inputs)) (Num (nu inputs))) (Num (time inputs)))"
  by (simp_all add: calculatePKN_d_def calculateKGD_d_def calculateRadial_d_def Let_def)

lemma profile_d_calc:
  "profile_d (calculatePKN_d inputs)
     = generateProfile_d (length_d (calculatePKN_d inputs)) (width_max_d (calculatePKN_d inputs))
         (rnd 0.25)"
  "profile_d (calculateKGD_d inputs)
     = generateProfile_d (length_d (calculateKGD_d inputs)) (width_max_d (calculateKGD_d inputs))
         (rnd 0.5)"
  "profile_d (calculateRadial_d inputs)
     = generateProfile_d (length_d (calculateRadial_d inputs))
         (width_max_d (calculateRadial_d inputs)) (rnd 0.5)"
  by (simp_all add: calculatePKN_d_def calculateKGD_d_def calculateRadial_d_def Let_def)

lemma valid_time_7: "valid_inputs (INITIAL_INPUTS\<lparr>time := 7\<rparr>)"
  by (simp add: valid_inputs_def INITIAL_INPUTS_def)


lemma history_7_last:
  "last (generateHistory_d (Num 7) f)
     = \<lparr>ts_time_d = Num (7881299347898369 / 1125899906842624),
        ts_length_d = sol_L_d (f (Num (7881299347898369 / 1125899906842624))),
        ts_width_d = sol_w_d (f (Num (7881299347898369 / 1125899906842624))),
        ts_pressure_d = sol_p_d (f (Num (7881299347898369 / 1125899906842624)))\<rparr>"
  using grid_7_50 by (simp add: generateHistory_d_last generateHistory_d_nth Let_def)

subsection \<open>Time history\<close>


text \<open>
  C10: the last record of the time history is said to be taken at the elapsed time of the
  input and to carry the length of the result. At an elapsed time of 7 and for each of
  the three models the last record is at \<open>7881299347898369 / 2\<^sup>5\<^sup>0\<close>, that is
  7.000000000000001: its length is the solver's extent at that time, while the length of
  the result is the solver's extent at 7.
\<close>

theorem history_last_sample_d:
  "valid_inputs (INITIAL_INPUTS\<lparr>time := 7\<rparr>)
   \<and> ts_time_d (last (timeSeries_d (compute_d m (inputs\<lparr>time := 7\<rparr>))))
     = Num (7881299347898369 / 1125899906842624)
   \<and> ts_time_d (last (timeSeries_d (compute_d m (inputs\<lparr>time := 7\<rparr>))))
     \<noteq> Num (time (inputs\<lparr>time := 7\<rparr>))
   \<and> ts_length_d (last (timeSeries_d (calculatePKN_d (inputs\<lparr>time := 7\<rparr>))))
     = sol_L_d (solvePKN_d (inputs\<lparr>time := 7\<rparr>) (getEPrime_d (Num (E inputs)) (Num (nu inputs)))
                 (Num (7881299347898369 / 1125899906842624)))
   \<and> length_d (calculatePKN_d (inputs\<lparr>time := 7\<rparr>))
     = sol_L_d (solvePKN_d (inputs\<lparr>time := 7\<rparr>) (getEPrime_d (Num (E inputs)) (Num (nu inputs)))
                 (Num 7))"
  using valid_time_7
  by (cases m) (simp_all add: compute_d_def timeSeries_d_calc length_d_calc history_7_last)

subsection \<open>Width profile\<close>

lemma profile_7_tip:
  "generateProfile_d (Num 7) w_max e ! 50
     = \<lparr>pp_position_d = Num (7881299347898369 / 1125899906842624),
        pp_width_d = jmul w_max (jpow (Num (- (1 / 4503599627370496))) e)\<rparr>"
proof -
  have "generateProfile_d (Num 7) w_max e ! 50
      = (let x = jmul (jdiv (Num 7) (Num 50)) (Num (real 50))
         in \<lparr>pp_position_d = x,
             pp_width_d = jmul w_max (jpow (jsub (Num 1) (jdiv x (Num 7))) e)\<rparr>)"
    by (rule generateProfile_d_nth) simp
  then show ?thesis
    by (simp only: Let_def of_nat_numeral grid_7_50 tip_base_7)
qed

text \<open>
  C9: the profile is said to run from 0 to \<open>L\<close> and to end with width 0. The program
  computes the position of point \<open>i\<close> as \<^verbatim>\<open>(L / points) * i\<close> and its width as
  \<^verbatim>\<open>w_max * Math.pow(1 - x / L, shapeExponent)\<close>. At \<open>L = 7\<close>, for every maximum
  width and for both exponents the solvers pass (0.25 for PKN, 0.5 for KGD and Radial),
  the profile has 51 points and the last is at 7.000000000000001, where \<open>1 - x / L\<close> is
  \<open>- 2\<^sup>-\<^sup>5\<^sup>2\<close>: the width there is NaN, the power of a negative base with a fractional
  exponent.
\<close>

theorem profile_tip_d:
  "length (generateProfile_d (Num 7) w_max (rnd 0.25)) = 51
   \<and> generateProfile_d (Num 7) w_max (rnd 0.25) ! 50
     = \<lparr>pp_position_d = Num (7881299347898369 / 1125899906842624), pp_width_d = NaN\<rparr>
   \<and> generateProfile_d (Num 7) w_max (rnd 0.5) ! 50
     = \<lparr>pp_position_d = Num (7881299347898369 / 1125899906842624), pp_width_d = NaN\<rparr>
   \<and> profile_d (calculatePKN_d inputs)
     = generateProfile_d (length_d (calculatePKN_d inputs)) (width_max_d (calculatePKN_d inputs))
         (rnd 0.25)
   \<and> profile_d (calculateKGD_d inputs)
     = generateProfile_d (length_d (calculateKGD_d inputs)) (width_max_d (calculateKGD_d inputs))
         (rnd 0.5)
   \<and> profile_d (calculateRadial_d inputs)
     = generateProfile_d (length_d (calculateRadial_d inputs))
         (width_max_d (calculateRadial_d inputs)) (rnd 0.5)"
  using profile_d_calc [of inputs]
  by (simp only: generateProfile_d_length profile_7_tip tip_pow_NaN jmul_NaN_right simp_thms)

subsection \<open>Signs\<close>

text \<open>No operation of the engine turns values that are not negative into a negative
  one.\<close>

lemma round_even_nonneg: "0 \<le> z \<Longrightarrow> 0 \<le> round_even z"
  using round_even_ge [of 0 z] by simp

lemma fl_nonneg: "0 \<le> x \<Longrightarrow> 0 \<le> fl x"
  by (simp add: fl_def Let_def round_even_nonneg)










lemma fl_one: "fl 1 = 1"
  by (subst fl_eval_up [where n = 52]) (simp_all add: round_even_def)

lemma rnd_one: "rnd 1 = Num 1"
  by (rule rnd_value [OF fl_one]) simp










subsection \<open>Volume balance\<close>




lemma fl_pow2_1023: "fl (2 ^ 1023) = 2 ^ 1023"
  by (subst fl_eval_down [where n = 971]) (simp_all add: round_even_def)

lemma rnd_pow2_1023: "rnd (2 ^ 1023) = Num (2 ^ 1023)"
  by (rule rnd_value [OF fl_pow2_1023]) simp

lemma rnd_overflow: "fl x = v \<Longrightarrow> 2 ^ 1024 \<le> v \<Longrightarrow> rnd x = PInf"
  by (simp only: rnd_def Let_def if_True)














subsection \<open>Asymptotic matching\<close>

text \<open>The relative error of one rounding in the normal range, and of the three
  roundings of the harmonic combination.\<close>

lemma fl_rel_error:
  fixes x :: real
  assumes "1 / 2 ^ 1022 \<le> x"
  shows "\<bar>fl x - x\<bar> \<le> x / 2 ^ 53"
proof -
  have xpos: "0 < x" using assms by (rule pos_of_ge_inverse_power)
  define e where "e = \<lfloor>log 2 \<bar>x\<bar>\<rfloor>"
  have "(2::real) powr (- real (1022::nat)) = 1 / 2 ^ 1022"
    by (simp only: powr_minus_divide powr_realpow zero_less_numeral)
  then have "2 powr (- real (1022::nat)) \<le> x" using assms by (simp only:)
  then have "- real (1022::nat) \<le> log 2 x" using xpos by (subst le_log_iff) simp_all
  then have "of_int (- 1022) \<le> log 2 \<bar>x\<bar>" using xpos by simp
  then have e: "- 1022 \<le> e" unfolding e_def by (subst le_floor_iff)
  define s :: real where "s = 2 powr (52 - of_int e)"
  have spos: "0 < s" unfolding s_def by simp
  have "of_int e \<le> log 2 x" unfolding e_def using xpos by simp
  then have "2 powr of_int e \<le> x" using xpos by (simp add: powr_le_iff)
  then have "2 powr of_int e * s \<le> x * s" using spos by simp
  moreover have "2 powr of_int e * s = 2 ^ 52"
    unfolding s_def by (simp flip: powr_add)
  ultimately have z: "2 ^ 52 \<le> x * s" by simp
  have fl: "fl x = of_int (round_even (x * s)) / s"
  proof -
    have inv: "2 powr (of_int e - 52) = 1 / s" unfolding s_def by (simp add: powr_diff)
    have m: "max \<lfloor>log 2 \<bar>x\<bar>\<rfloor> (- 1022) = e" using e unfolding e_def by simp
    have "x \<noteq> 0" using xpos by simp
    then have "fl x = of_int (round_even (x * 2 powr (52 - of_int e))) * 2 powr (of_int e - 52)"
      by (simp only: fl_def Let_def m if_False)
    then show ?thesis unfolding inv s_def [symmetric] by simp
  qed
  have "fl x - x = (of_int (round_even (x * s)) - x * s) / s"
    unfolding fl using spos by (simp add: field_simps)
  then have "\<bar>fl x - x\<bar> = \<bar>of_int (round_even (x * s)) - x * s\<bar> / s"
    using spos by (simp add: abs_divide)
  also have "\<dots> \<le> (1/2) / s"
    using round_even_error [of "x * s"] spos by (intro divide_right_mono) simp_all
  also have "\<dots> \<le> ((x * s) / 2 ^ 53) / s"
    using z spos by (intro divide_right_mono) simp_all
  also have "\<dots> = x / 2 ^ 53" using spos by simp
  finally show ?thesis .
qed

lemma rnd_bounds:
  fixes x :: real
  assumes "1 / 2 ^ 1022 \<le> x" "x \<le> 2 ^ 1023"
  shows "\<exists>r. rnd x = Num r \<and> x * (1 - 1 / 2 ^ 53) \<le> r \<and> r \<le> x * (1 + 1 / 2 ^ 53)"
proof -
  have xpos: "0 < x" using assms(1) by (rule pos_of_ge_inverse_power)
  have err: "\<bar>fl x - x\<bar> \<le> x / 2 ^ 53" using assms(1) by (rule fl_rel_error)
  define d where "d = x / 2 ^ 53"
  have eq: "x * (1 - 1 / 2 ^ 53) = x - d" "x * (1 + 1 / 2 ^ 53) = x + d"
    unfolding d_def by (simp_all add: algebra_simps)
  have "\<bar>fl x - x\<bar> \<le> d" using err unfolding d_def .
  then have "x - d \<le> fl x" "fl x \<le> x + d" by linarith+
  then have lo: "x * (1 - 1 / 2 ^ 53) \<le> fl x" and hi: "fl x \<le> x * (1 + 1 / 2 ^ 53)"
    unfolding eq by this+
  have "x * (1 + 1 / 2 ^ 53) \<le> 2 ^ 1023 * (1 + 1 / 2 ^ 53)"
    using assms(2) by (intro mult_right_mono) simp_all
  also have "\<dots> < 2 ^ 1023 * (2::real)" by (intro mult_strict_left_mono) simp_all
  also have "\<dots> = 2 ^ 1024" by simp
  finally have "fl x < 2 ^ 1024" using hi by linarith
  moreover have "0 \<le> fl x" using xpos by (intro fl_nonneg) simp
  ultimately have "\<bar>fl x\<bar> < 2 ^ 1024" by linarith
  then have "rnd x = Num (fl x)" by (rule rnd_Num)
  then show ?thesis using lo hi by blast
qed

lemma harmonic_error_chain:
  fixes a ra rb s L u :: real
  assumes "0 < a" "0 < u" "u < 1"
    and ra: "(1 / a) * (1 - u) \<le> ra" and rb: "0 \<le> rb"
    and s: "(ra + rb) * (1 - u) \<le> s" and L: "L \<le> (1 / s) * (1 + u)"
  shows "L \<le> a * ((1 + u) / (1 - u)\<^sup>2)"
proof -
  have u1: "0 < 1 - u" using assms(3) by simp
  have "(1 / a) * (1 - u) * (1 - u) \<le> ra * (1 - u)"
    using ra u1 by (intro mult_right_mono) simp_all
  also have "\<dots> \<le> (ra + rb) * (1 - u)"
    using rb u1 by (intro mult_right_mono) simp_all
  also note s
  finally have lower: "(1 - u)\<^sup>2 / a \<le> s" by (simp add: power2_eq_square)
  have pos: "0 < (1 - u)\<^sup>2 / a" using u1 assms(1) by simp
  then have spos: "0 < s" using lower by linarith
  have "1 / s \<le> 1 / ((1 - u)\<^sup>2 / a)"
    using lower pos by (intro frac_le) simp_all
  then have "1 / s \<le> a / (1 - u)\<^sup>2" by simp
  then have "(1 / s) * (1 + u) \<le> (a / (1 - u)\<^sup>2) * (1 + u)"
    using assms(2) by (intro mult_right_mono) simp_all
  with L show ?thesis by (simp add: field_simps)
qed

lemma rounding_factor: "(1 + 1 / 2 ^ 53) / (1 - 1 / 2 ^ 53)\<^sup>2 \<le> (1 + 1 / 2 ^ 51 :: real)"
  by (simp add: field_simps power2_eq_square)

lemma harmonic_d_bound:
  fixes a b :: real
  assumes "1 / 2 ^ 1000 \<le> a" "a \<le> 2 ^ 1000" "1 / 2 ^ 1000 \<le> b" "b \<le> 2 ^ 1000"
  shows "\<exists>L. harmonic_d (Num a) (Num b) = Num L \<and> 0 < L
           \<and> L \<le> a * (1 + 1 / 2 ^ 51) \<and> L \<le> b * (1 + 1 / 2 ^ 51)"
proof -
  define u :: real where "u = 1 / 2 ^ 53"
  define K :: real where "K = 2 ^ 1000"
  define k :: real where "k = 1 / K"
  have u: "0 < u" "u < 1" "u \<le> 1 / 2" unfolding u_def by simp_all
  have K: "0 < K" "0 < k" "k * K = 1" unfolding k_def K_def by simp_all
  have k2: "(1::real) / 2 ^ 1022 \<le> k / 8" unfolding k_def K_def by simp
  have k3: "8 * K \<le> 2 ^ 1023" unfolding K_def by simp
  have ab: "k \<le> a" "a \<le> K" "k \<le> b" "b \<le> K" using assms unfolding k_def K_def by simp_all
  have apos: "0 < a" and bpos: "0 < b" using ab K by linarith+
  have round: "\<exists>r. rnd x = Num r \<and> x * (1 - u) \<le> r \<and> r \<le> x * (1 + u)"
    if "k / 8 \<le> x" "x \<le> 8 * K" for x
    unfolding u_def using rnd_bounds [OF order_trans [OF k2 that(1)] order_trans [OF that(2) k3]] .
  have scale: "y / 2 \<le> y * (1 - u) \<and> y * (1 + u) \<le> 2 * y" if "0 \<le> y" for y
  proof -
    have "y * (1 / 2) \<le> y * (1 - u)" using that u by (intro mult_left_mono) simp_all
    moreover have "y * (1 + u) \<le> y * 2" using that u by (intro mult_left_mono) simp_all
    ultimately show ?thesis by simp
  qed
  have inv: "1 / (c * K) \<le> 1 / x \<and> 1 / x \<le> 1 / (c * k)"
    if "c * k \<le> x" "x \<le> c * K" "0 < c" for x c
  proof -
    have ck: "0 < c * k" using that(3) K by simp
    then have xpos: "0 < x" using that(1) by linarith
    have "1 / (c * K) \<le> 1 / x" using that(2) xpos by (intro frac_le) simp_all
    moreover have "1 / x \<le> 1 / (c * k)" using that(1) ck by (intro frac_le) simp_all
    ultimately show ?thesis by simp
  qed
  have recip: "1 / (c * K) = k / c" "1 / (c * k) = K / c" for c
    unfolding k_def using K(1) by simp_all
  define ya where "ya = 1 / a"
  define yb where "yb = 1 / b"
  have ya: "k \<le> ya" "ya \<le> K" and yb: "k \<le> yb" "yb \<le> K"
    using inv [of 1 a] inv [of 1 b] ab recip [of 1] unfolding ya_def yb_def by simp_all
  have "k / 8 \<le> ya" "ya \<le> 8 * K" "k / 8 \<le> yb" "yb \<le> 8 * K"
    using ya yb K by linarith+
  then obtain ra rb where
    ra: "rnd ya = Num ra" "ya * (1 - u) \<le> ra" "ra \<le> ya * (1 + u)" and
    rb: "rnd yb = Num rb" "yb * (1 - u) \<le> rb" "rb \<le> yb * (1 + u)"
    using round by metis
  have sa: "ya / 2 \<le> ya * (1 - u)" "ya * (1 + u) \<le> 2 * ya"
    and sb: "yb / 2 \<le> yb * (1 - u)" "yb * (1 + u) \<le> 2 * yb"
    using scale [of ya] scale [of yb] ya yb K by simp_all
  have rapos: "0 < ra" "0 < rb" using ra(2) rb(2) sa sb ya yb K by linarith+
  define t where "t = ra + rb"
  have sum: "k \<le> t" "t \<le> 4 * K"
    unfolding t_def using ra rb sa sb ya yb K by linarith+
  have "k / 8 \<le> t" "t \<le> 8 * K" using sum K by linarith+
  then obtain s where
    s: "rnd t = Num s" "t * (1 - u) \<le> s" "s \<le> t * (1 + u)"
    using round by metis
  have ss: "t / 2 \<le> t * (1 - u)" "t * (1 + u) \<le> 2 * t"
    using scale [of t] sum K by simp_all
  have s_range: "(1 / 2) * k \<le> s" "s \<le> 8 * K" using s(2,3) ss sum by linarith+
  have spos: "0 < s" using s_range K by linarith
  have "1 / (8 * K) \<le> 1 / s" using s_range(2) spos by (intro frac_le) simp_all
  moreover have "1 / s \<le> 1 / ((1 / 2) * k)" using s_range(1) K by (intro frac_le) simp_all
  ultimately have "k / 8 \<le> 1 / s" "1 / s \<le> 2 * K"
    using recip(1) [of 8] recip(2) [of "1 / 2"] by simp_all
  then have "k / 8 \<le> 1 / s" "1 / s \<le> 8 * K" using K by linarith+
  then obtain L where
    L: "rnd (1 / s) = Num L" "(1 / s) * (1 - u) \<le> L" "L \<le> (1 / s) * (1 + u)"
    using round by metis
  have "0 < (1 / s) * (1 - u)" using spos u by simp
  then have Lpos: "0 < L" using L(2) by linarith
  have h: "harmonic_d (Num a) (Num b) = Num L"
    unfolding harmonic_d_def using apos bpos spos ra(1) rb(1) s(1) L(1)
    by (simp add: ya_def yb_def t_def)
  have "L \<le> a * ((1 + u) / (1 - u)\<^sup>2)"
  proof (rule harmonic_error_chain [OF apos u(1,2)])
    show "1 / a * (1 - u) \<le> ra" using ra(2) by (simp only: ya_def)
    show "0 \<le> rb" using rapos by simp
    show "(ra + rb) * (1 - u) \<le> s" using s(2) by (simp only: t_def)
    show "L \<le> 1 / s * (1 + u)" by (rule L(3))
  qed
  moreover have "L \<le> b * ((1 + u) / (1 - u)\<^sup>2)"
  proof (rule harmonic_error_chain [OF bpos u(1,2)])
    show "1 / b * (1 - u) \<le> rb" using rb(2) by (simp only: yb_def)
    show "0 \<le> ra" using rapos by simp
    show "(rb + ra) * (1 - u) \<le> s" using s(2) by (simp only: t_def add.commute)
    show "L \<le> 1 / s * (1 + u)" by (rule L(3))
  qed
  moreover have "a * ((1 + u) / (1 - u)\<^sup>2) \<le> a * (1 + 1 / 2 ^ 51)"
    unfolding u_def using apos by (intro mult_left_mono rounding_factor) simp
  moreover have "b * ((1 + u) / (1 - u)\<^sup>2) \<le> b * (1 + 1 / 2 ^ 51)"
    unfolding u_def using bpos by (intro mult_left_mono rounding_factor) simp
  ultimately show ?thesis using h Lpos by (intro exI [of _ L]) linarith
qed

lemma valid_stiff_inputs: "valid_inputs stiff_inputs"
  by (simp add: valid_inputs_def stiff_inputs_def)

lemma stiff_fields:
  "E stiff_inputs = 2 ^ 1023" "nu stiff_inputs = 0" "mu stiff_inputs = 1"
  "q stiff_inputs = 3" "CL stiff_inputs = 1" "H stiff_inputs = 1"
  "time stiff_inputs = 1"
  by (simp_all add: stiff_inputs_def)

lemma Ep_stiff:
  "getEPrime_d (Num (E stiff_inputs)) (Num (nu stiff_inputs)) = Num (2 ^ 1023)"
proof -
  have "jsub (Num 1) (jpow (Num 0) (Num 2)) = Num 1"
    using rnd_one by (simp add: jsub_def)
  then show ?thesis
    unfolding getEPrime_d_def stiff_fields using rnd_pow2_1023 by simp
qed

lemma rnd_pos:
  assumes "1 / 2 ^ 1022 \<le> x" "x \<le> 2 ^ 1023"
  shows "\<exists>r. rnd x = Num r \<and> 0 < r"
proof -
  obtain r where r: "rnd x = Num r" "x * (1 - 1 / 2 ^ 53) \<le> r"
    using rnd_bounds [OF assms] by blast
  have "0 < x" using assms(1) by (rule pos_of_ge_inverse_power)
  then have "0 < x * (1 - 1 / 2 ^ 53)" by simp
  then show ?thesis using r by (intro exI [of _ r]) simp
qed

lemma jpow_one: "jpow (Num 1) (Num y) = Num 1"
  using rnd_one by (simp add: real_pow_def)

lemma fl_3: "fl 3 = 3"
  by (subst fl_eval_up [where n = 51]) (simp_all add: round_even_def)

lemma fl_27: "fl 27 = 27"
  by (subst fl_eval_up [where n = 48]) (simp_all add: round_even_def)

lemma cube_3: "jpow (Num 3) (Num 3) = Num 27"
proof -
  have "real_pow 3 3 = 27" by (simp add: real_pow_def)
  moreover have "rnd 27 = Num 27" by (rule rnd_value [OF fl_27]) simp
  ultimately show ?thesis by simp
qed

lemma fl_27_Ep: "fl (27 * 2 ^ 1023) = 27 * 2 ^ 1023"
  by (subst fl_eval_down [where n = 975]) (simp_all add: round_even_def)

lemma product_overflow: "jmul (Num 27) (Num (2 ^ 1023)) = PInf"
proof -
  have "rnd (27 * 2 ^ 1023) = PInf"
    by (rule rnd_overflow [OF fl_27_Ep]) simp
  then show ?thesis by (simp only: jmul.simps)
qed

lemma no_leakoff_stiff:
  "PKN_L_no_leakoff_d stiff_inputs (Num (2 ^ 1023)) (Num 1) = PInf"
proof -
  obtain c where c: "rnd 0.68 = Num c" "0 < c"
    using rnd_pos [of "0.68"] by auto
  obtain y where y: "rnd 0.2 = Num y" "0 < y"
    using rnd_pos [of "0.2"] by auto
  obtain z where z: "rnd 0.8 = Num z" "0 < z"
    using rnd_pos [of "0.8"] by auto
  have den: "jmul (Num 1) (jpow (Num 1) (Num 4)) = Num 1"
    unfolding jpow_one using rnd_one by simp
  have "jdiv (jmul (jpow (Num 3) (Num 3)) (Num (2 ^ 1023))) (jmul (Num 1) (jpow (Num 1) (Num 4)))
      = PInf"
    unfolding cube_3 product_overflow den by (simp add: signed_inf_def)
  then show ?thesis
    unfolding PKN_L_no_leakoff_d_def stiff_fields c y z jpow_one
    using c(2) y(2) by (simp add: signed_inf_def)
qed

lemma fl_two_pi: "fl (2 * (884279719003555 / 281474976710656)) = 884279719003555 / 140737488355328"
  by (subst fl_eval_up [where n = 50]) (simp_all add: round_even_def)

lemma fl_two_pi_again: "fl (884279719003555 / 140737488355328 * 1) = 884279719003555 / 140737488355328"
  by (subst fl_eval_up [where n = 50]) (simp_all add: round_even_def)

lemma fl_3_1: "fl (3 * 1) = 3"
  using fl_3 by simp

lemma fl_high: "fl (3 / (884279719003555 / 140737488355328)) = 2150310427208497 / 4503599627370496"
  by (subst fl_eval_up [where n = 54]) (simp_all add: round_even_def Let_def)

lemma high_leakoff_stiff:
  "PKN_L_high_leakoff_d stiff_inputs (Num 1) = Num (2150310427208497 / 4503599627370496)"
proof -
  have s: "jsqrt (Num 1) = Num 1" using rnd_one by simp
  have n: "jmul (Num 3) (Num 1) = Num 3"
    unfolding jmul.simps by (rule rnd_value [OF fl_3_1]) simp
  have p: "jmul (Num 2) Math_PI = Num (884279719003555 / 140737488355328)"
    unfolding Math_PI_def jmul.simps by (rule rnd_value [OF fl_two_pi]) simp
  have p1: "jmul (Num (884279719003555 / 140737488355328)) (Num 1)
      = Num (884279719003555 / 140737488355328)"
    unfolding jmul.simps by (rule rnd_value [OF fl_two_pi_again]) simp
  have d: "jdiv (Num 3) (Num (884279719003555 / 140737488355328))
      = Num (2150310427208497 / 4503599627370496)"
  proof -
    have "rnd (3 / (884279719003555 / 140737488355328))
        = Num (2150310427208497 / 4503599627370496)"
      by (rule rnd_value [OF fl_high]) simp
    then show ?thesis by (simp only: jdiv.simps) simp
  qed
  show ?thesis
    unfolding PKN_L_high_leakoff_d_def stiff_fields
    by (simp only: s n p p1 d)
qed

lemma fl_recip_high:
  "fl (1 / (2150310427208497 / 4503599627370496)) = 4716158501352293 / 2251799813685248"
  by (subst fl_eval_up [where n = 51]) (simp_all add: round_even_def Let_def)

lemma fl_sum: "fl (0 + 4716158501352293 / 2251799813685248) = 4716158501352293 / 2251799813685248"
  by (subst fl_eval_up [where n = 51]) (simp_all add: round_even_def Let_def)

lemma fl_combined:
  "fl (1 / (4716158501352293 / 2251799813685248)) = 8601241708833989 / 18014398509481984"
  by (subst fl_eval_up [where n = 54]) (simp_all add: round_even_def Let_def)

lemma harmonic_stiff:
  "harmonic_d PInf (Num (2150310427208497 / 4503599627370496))
     = Num (8601241708833989 / 18014398509481984)"
proof -
  have a: "jdiv (Num 1) (Num (2150310427208497 / 4503599627370496))
      = Num (4716158501352293 / 2251799813685248)"
  proof -
    have "rnd (1 / (2150310427208497 / 4503599627370496))
        = Num (4716158501352293 / 2251799813685248)"
      by (rule rnd_value [OF fl_recip_high]) simp
    then show ?thesis by (simp only: jdiv.simps) simp
  qed
  have b: "jadd (Num 0) (Num (4716158501352293 / 2251799813685248))
      = Num (4716158501352293 / 2251799813685248)"
    unfolding jadd.simps by (rule rnd_value [OF fl_sum]) simp
  have c: "jdiv (Num 1) (Num (4716158501352293 / 2251799813685248))
      = Num (8601241708833989 / 18014398509481984)"
  proof -
    have "rnd (1 / (4716158501352293 / 2251799813685248))
        = Num (8601241708833989 / 18014398509481984)"
      by (rule rnd_value [OF fl_combined]) simp
    then show ?thesis by (simp only: jdiv.simps) simp
  qed
  have z: "jdiv (Num 1) PInf = Num 0" by simp
  show ?thesis unfolding harmonic_d_def by (simp only: z a b c)
qed

lemma length_stiff:
  "length_d (calculatePKN_d stiff_inputs) = Num (8601241708833989 / 18014398509481984)"
  unfolding length_d_calc Ep_stiff
  unfolding solvePKN_d_def Let_def Sol_d.simps
  unfolding stiff_fields(7) no_leakoff_stiff high_leakoff_stiff harmonic_stiff ..

text \<open>
  C1, as stated: the combined extent is at most the smaller of the two asymptotes. At
  the valid input \<open>stiff_inputs\<close> the no-leakoff asymptote of the PKN solver is Infinity
  and the high-leakoff asymptote is \<open>2150310427208497 / 2\<^sup>5\<^sup>2\<close>; the combined extent
  \<open>1 / (0 + 1 / L_high_leakoff)\<close> is \<open>8601241708833989 / 2\<^sup>5\<^sup>4\<close>, one unit in the last
  place above the high-leakoff asymptote.
\<close>

theorem harmonic_d_exceeds_asymptote:
  "valid_inputs stiff_inputs
   \<and> PKN_L_no_leakoff_d stiff_inputs
        (getEPrime_d (Num (E stiff_inputs)) (Num (nu stiff_inputs))) (Num (time stiff_inputs))
     = PInf
   \<and> PKN_L_high_leakoff_d stiff_inputs (Num (time stiff_inputs))
     = Num (2150310427208497 / 4503599627370496)
   \<and> length_d (calculatePKN_d stiff_inputs) = Num (8601241708833989 / 18014398509481984)
   \<and> \<not> jle (length_d (calculatePKN_d stiff_inputs))
          (jmin (PKN_L_no_leakoff_d stiff_inputs
                   (getEPrime_d (Num (E stiff_inputs)) (Num (nu stiff_inputs)))
                   (Num (time stiff_inputs)))
                (PKN_L_high_leakoff_d stiff_inputs (Num (time stiff_inputs))))"
  unfolding length_stiff Ep_stiff
  unfolding stiff_fields(7) no_leakoff_stiff high_leakoff_stiff
  using valid_stiff_inputs by simp

lemma sol_L_d_harmonic:
  "sol_L_d (solvePKN_d inputs Ep t)
     = harmonic_d (PKN_L_no_leakoff_d inputs Ep t) (PKN_L_high_leakoff_d inputs t)"
  "sol_L_d (solveKGD_d inputs Ep t)
     = harmonic_d (KGD_L_no_leakoff_d inputs Ep t) (KGD_L_high_leakoff_d inputs t)"
  "sol_L_d (solveRadial_d inputs Ep t)
     = harmonic_d (Radial_R_no_leakoff_d inputs Ep t) (Radial_R_high_leakoff_d inputs t)"
  by (simp_all add: solvePKN_d_def solveKGD_d_def solveRadial_d_def Let_def)

text \<open>
  C1, amended: in each of the three solvers the combined extent is the harmonic
  combination of the two asymptotes, three rounded operations; whenever the asymptotes
  are numbers \<open>a\<close> and \<open>b\<close> between \<open>2\<^sup>-\<^sup>1\<^sup>0\<^sup>0\<^sup>0\<close> and \<open>2\<^sup>1\<^sup>0\<^sup>0\<^sup>0\<close>, the combined
  extent is a positive number and at most \<open>min a b * (1 + 2\<^sup>-\<^sup>5\<^sup>1)\<close>.
\<close>

theorem harmonic_d_near_bound:
  assumes "1 / 2 ^ 1000 \<le> a" "a \<le> 2 ^ 1000" "1 / 2 ^ 1000 \<le> b" "b \<le> 2 ^ 1000"
  shows "(\<exists>Lv. harmonic_d (Num a) (Num b) = Num Lv \<and> 0 < Lv
            \<and> Lv \<le> min a b * (1 + 1 / 2 ^ 51))
    \<and> sol_L_d (solvePKN_d inputs Ep t)
        = harmonic_d (PKN_L_no_leakoff_d inputs Ep t) (PKN_L_high_leakoff_d inputs t)
    \<and> sol_L_d (solveKGD_d inputs Ep t)
        = harmonic_d (KGD_L_no_leakoff_d inputs Ep t) (KGD_L_high_leakoff_d inputs t)
    \<and> sol_L_d (solveRadial_d inputs Ep t)
        = harmonic_d (Radial_R_no_leakoff_d inputs Ep t) (Radial_R_high_leakoff_d inputs t)"
proof -
  obtain Lv where Lv: "harmonic_d (Num a) (Num b) = Num Lv" "0 < Lv"
    "Lv \<le> a * (1 + 1 / 2 ^ 51)" "Lv \<le> b * (1 + 1 / 2 ^ 51)"
    using harmonic_d_bound [OF assms] by blast
  have "Lv \<le> min a b * (1 + 1 / 2 ^ 51)"
    using Lv(3,4) by (cases "a \<le> b") (simp_all add: min_def)
  with Lv(1,2) have "\<exists>Lv. harmonic_d (Num a) (Num b) = Num Lv \<and> 0 < Lv
      \<and> Lv \<le> min a b * (1 + 1 / 2 ^ 51)"
    by blast
  then show ?thesis by (simp only: sol_L_d_harmonic simp_thms)
qed

theorem harmonic_d_near_bound_witness:
  "(1::real) / 2 ^ 1000 \<le> 1 \<and> (1::real) \<le> 2 ^ 1000
   \<and> (1::real) / 2 ^ 1000 \<le> 2 \<and> (2::real) \<le> 2 ^ 1000
   \<and> (\<exists>Lv. harmonic_d (Num 1) (Num 2) = Num Lv \<and> 0 < Lv \<and> Lv \<le> min 1 2 * (1 + 1 / 2 ^ 51))"
proof -
  have r: "(1::real) / 2 ^ 1000 \<le> 1" "(1::real) \<le> 2 ^ 1000"
    "(1::real) / 2 ^ 1000 \<le> 2" "(2::real) \<le> 2 ^ 1000"
    by simp_all
  from harmonic_d_near_bound [OF r] r show ?thesis by blast
qed

end
